theory Spec2Isabelle
  imports Main "HOL-Library.Word"
begin

section \<open>Strings of the contact form\<close>

text \<open>
  A JavaScript string is a sequence of UTF-16 code units; \<open>length\<close> counts code units,
  as \<^verbatim>\<open>String.prototype.length\<close> does. String literals of the script are ASCII and are
  written \<open>js ''...''\<close>.
\<close>

type_synonym code_unit = "16 word"
type_synonym jsstring = "code_unit list"

definition js :: "string \<Rightarrow> jsstring" where
  "js s = map of_char s"

text \<open>
  The code units removed by \<^verbatim>\<open>trim()\<close> and matched by the regular-expression class
  \<^verbatim>\<open>\s\<close>: the WhiteSpace and LineTerminator productions of ECMAScript (TAB, LF, VT, FF,
  CR, SP, NBSP, U+1680, U+2000 to U+200A, LS, PS, U+202F, U+205F, U+3000, U+FEFF).
\<close>

definition isWhiteSpace :: "code_unit \<Rightarrow> bool" where
  "isWhiteSpace c \<longleftrightarrow>
     c \<in> set [0x0009, 0x000A, 0x000B, 0x000C, 0x000D, 0x0020, 0x00A0, 0x1680,
               0x2028, 0x2029, 0x202F, 0x205F, 0x3000, 0xFEFF]
     \<or> (0x2000 \<le> c \<and> c \<le> 0x200A)"

definition trim :: "jsstring \<Rightarrow> jsstring" where
  "trim s = rev (dropWhile isWhiteSpace (rev (dropWhile isWhiteSpace s)))"

text \<open>The class \<^verbatim>\<open>\d\<close>: the ASCII digits.\<close>

definition isDigit :: "code_unit \<Rightarrow> bool" where
  "isDigit c \<longleftrightarrow> 0x30 \<le> c \<and> c \<le> 0x39"

section \<open>Field validators\<close>

text \<open>
  Each validator returns the error message, the empty string when the value is accepted.
  \<^verbatim>\<open>!value\<close> on a string holds exactly for the empty string.
\<close>

definition validateName :: "jsstring \<Rightarrow> jsstring" where
  "validateName v =
     (if v = [] \<or> length (trim v) = 0 then js ''Name is required''
      else if length (trim v) < 2 then js ''Name must be at least 2 characters''
      else if length (trim v) > 100 then js ''Name must be less than 100 characters''
      else [])"

text \<open>
  \<^verbatim>\<open>/^[^\s@]+@[^\s@]+\.[^\s@]+$/\<close>: a non-empty run of \<^verbatim>\<open>[^\s@]\<close>, one \<^verbatim>\<open>@\<close>, and a
  rest of \<^verbatim>\<open>[^\s@]\<close> only that has a dot which is neither its first nor its last code
  unit. The class \<^verbatim>\<open>[^\s@]\<close> admits the dot, so the first run ends at the first \<^verbatim>\<open>@\<close>.
\<close>

definition emailChar :: "code_unit \<Rightarrow> bool" where
  "emailChar c \<longleftrightarrow> \<not> isWhiteSpace c \<and> c \<noteq> 0x40"

definition emailRegex_test :: "jsstring \<Rightarrow> bool" where
  "emailRegex_test v \<longleftrightarrow>
     takeWhile emailChar v \<noteq> [] \<and>
     (case dropWhile emailChar v of
        [] \<Rightarrow> False
      | c # rest \<Rightarrow> c = 0x40 \<and> list_all emailChar rest \<and> 0x2E \<in> set (butlast (tl rest)))"

definition validateEmail :: "jsstring \<Rightarrow> jsstring" where
  "validateEmail v =
     (if v = [] \<or> length (trim v) = 0 then js ''Email is required''
      else if \<not> emailRegex_test v then js ''Please enter a valid email address''
      else [])"

text \<open>\<^verbatim>\<open>/^[\d\s\-\+\(\)]+$/\<close>: one or more code units, each a digit, white space or one of
  \<^verbatim>\<open>- + ( )\<close>.\<close>

definition phoneChar :: "code_unit \<Rightarrow> bool" where
  "phoneChar c \<longleftrightarrow> isDigit c \<or> isWhiteSpace c \<or> c = 0x2D \<or> c = 0x2B \<or> c = 0x28 \<or> c = 0x29"

definition phoneRegex_test :: "jsstring \<Rightarrow> bool" where
  "phoneRegex_test v \<longleftrightarrow> v \<noteq> [] \<and> list_all phoneChar v"

definition validatePhone :: "jsstring \<Rightarrow> jsstring" where
  "validatePhone v =
     (if v = [] \<or> length (trim v) = 0 then []
      else if \<not> phoneRegex_test v then js ''Please enter a valid phone number''
      else [])"

definition validateSubject :: "jsstring \<Rightarrow> jsstring" where
  "validateSubject v =
     (if v = [] \<or> length (trim v) = 0 then js ''Please select a subject''
      else [])"

definition validateMessage :: "jsstring \<Rightarrow> jsstring" where
  "validateMessage v =
     (if v = [] \<or> length (trim v) = 0 then js ''Message is required''
      else if length (trim v) < 10 then js ''Message must be at least 10 characters''
      else if length (trim v) > 2000 then js ''Message must be less than 2000 characters''
      else [])"

section \<open>The rendered form\<close>

text \<open>
  The script reads and writes the page through the elements it looked up when it was
  loaded. An input control carries its current value, the \<^verbatim>\<open>aria-invalid\<close> attribute
  (absent until it is set), the membership of \<^verbatim>\<open>error\<close> in its class list and the value
  that \<^verbatim>\<open>form.reset()\<close> restores. An error slot carries its text and its
  \<^verbatim>\<open>style.display\<close>. Either lookup may have returned \<^verbatim>\<open>null\<close>. Elements looked up
  under different ids are different nodes, so every field owns its two elements.
\<close>

record input_element =
  el_value :: jsstring
  aria_invalid :: "jsstring option"
  class_error :: bool
  defaultValue :: jsstring

record error_element =
  err_textContent :: jsstring
  err_display :: jsstring

record form_field =
  element :: "input_element option"
  error :: "error_element option"

datatype field_id = Name | Email | Phone | Subject | Message

text \<open>
  \<^verbatim>\<open>formFields[fieldName]\<close>: the five own properties, in the order of the object literal.
  Any other key finds nothing, or an inherited member of \<^verbatim>\<open>Object.prototype\<close> that has
  neither \<^verbatim>\<open>element\<close> nor \<^verbatim>\<open>error\<close>; the guards of the script treat both alike.
\<close>

definition Object_keys :: "jsstring list" where
  "Object_keys = [js ''name'', js ''email'', js ''phone'', js ''subject'', js ''message'']"

definition field_of_key :: "jsstring \<Rightarrow> field_id option" where
  "field_of_key k =
     (if k = js ''name'' then Some Name
      else if k = js ''email'' then Some Email
      else if k = js ''phone'' then Some Phone
      else if k = js ''subject'' then Some Subject
      else if k = js ''message'' then Some Message
      else None)"

fun validator :: "field_id \<Rightarrow> jsstring \<Rightarrow> jsstring" where
  "validator Name = validateName"
| "validator Email = validateEmail"
| "validator Phone = validatePhone"
| "validator Subject = validateSubject"
| "validator Message = validateMessage"

text \<open>The \<^verbatim>\<open>required\<close> property: \<^verbatim>\<open>false\<close> on phone, undefined on the other fields.\<close>

fun required :: "field_id \<Rightarrow> bool option" where
  "required Phone = Some False"
| "required _ = None"

record success_element =
  suc_display :: jsstring
  suc_role :: "jsstring option"

record button_element =
  disabled :: bool
  btn_textContent :: jsstring

datatype focus_target = FieldInput field_id | SuccessMessage

text \<open>
  The values handed to the submission collaborator. \<^verbatim>\<open>FormData.get\<close> yields \<^verbatim>\<open>null\<close>
  for a control that does not exist; the phone entry is replaced by the empty string then.
  The controls are taken to carry their ids as form names.
\<close>

record form_data =
  data_name :: "jsstring option"
  data_email :: "jsstring option"
  data_phone :: jsstring
  data_subject :: "jsstring option"
  data_message :: "jsstring option"

text \<open>
  The page as the script sees it: the five fields, the success indicator, the submit
  button of the form, the element that received focus last, the calls of the submission
  collaborator so far, and the pending reset timers (delay in milliseconds and the button
  label captured by the callback).
\<close>

record page =
  formFields :: "field_id \<Rightarrow> form_field"
  successMessage :: "success_element option"
  submitButton :: "button_element option"
  activeElement :: "focus_target option"
  submitted :: "form_data list"
  timeouts :: "(nat \<times> jsstring) list"

section \<open>Error display\<close>

definition showError :: "jsstring \<Rightarrow> jsstring \<Rightarrow> page \<Rightarrow> page" where
  "showError fieldName message st =
     (case field_of_key fieldName of
        None \<Rightarrow> st
      | Some f \<Rightarrow>
          (case error (formFields st f) of
             None \<Rightarrow> st
           | Some slot \<Rightarrow>
               st\<lparr>formFields := (formFields st)(f :=
                    \<lparr>element = map_option (\<lambda>el. el\<lparr>aria_invalid := Some (js ''true''),
                                                      class_error := True\<rparr>)
                                 (element (formFields st f)),
                     error = Some (slot\<lparr>err_textContent := message,
                                       err_display := js ''block''\<rparr>)\<rparr>)\<rparr>))"

definition clearError :: "jsstring \<Rightarrow> page \<Rightarrow> page" where
  "clearError fieldName st =
     (case field_of_key fieldName of
        None \<Rightarrow> st
      | Some f \<Rightarrow>
          (case error (formFields st f) of
             None \<Rightarrow> st
           | Some slot \<Rightarrow>
               st\<lparr>formFields := (formFields st)(f :=
                    \<lparr>element = map_option (\<lambda>el. el\<lparr>aria_invalid := Some (js ''false''),
                                                      class_error := False\<rparr>)
                                 (element (formFields st f)),
                     error = Some (slot\<lparr>err_textContent := [],
                                       err_display := js ''none''\<rparr>)\<rparr>)\<rparr>))"

section \<open>Validation of one field and of the form\<close>

definition validateField :: "jsstring \<Rightarrow> page \<Rightarrow> page \<times> bool" where
  "validateField fieldName st =
     (case field_of_key fieldName of
        None \<Rightarrow> (st, True)
      | Some f \<Rightarrow>
          (case element (formFields st f) of
             None \<Rightarrow> (st, True)
           | Some el \<Rightarrow>
               (let v = el_value el;
                    isRequired = (required f \<noteq> Some False)
                in if \<not> isRequired \<and> (v = [] \<or> length (trim v) = 0)
                   then (clearError fieldName st, True)
                   else (let err = validator f v
                         in if err \<noteq> [] then (showError fieldName err st, False)
                            else (clearError fieldName st, True)))))"

text \<open>
  The values validateField accepts for a field whose input exists: the empty ones of an
  optional field, and those the validator has no message for.
\<close>

definition passes :: "field_id \<Rightarrow> jsstring \<Rightarrow> bool" where
  "passes f v \<longleftrightarrow>
     (required f = Some False \<and> (v = [] \<or> length (trim v) = 0)) \<or> validator f v = []"

text \<open>\<^verbatim>\<open>Object.keys(formFields).forEach\<close>: every key in turn, the flag only ever lowered.\<close>

definition validateForm :: "page \<Rightarrow> page \<times> bool" where
  "validateForm st =
     fold (\<lambda>fieldName (s, isValid).
             (case validateField fieldName s of
                (s', ok) \<Rightarrow> (s', if \<not> ok then False else isValid)))
          Object_keys (st, True)"

section \<open>Success indicator and reset\<close>

text \<open>
  \<^verbatim>\<open>focus()\<close> is recorded as the element that received focus last;
  \<^verbatim>\<open>scrollIntoView\<close> changes nothing the script reads and is left out.
\<close>

definition showSuccess :: "page \<Rightarrow> page" where
  "showSuccess st =
     (case successMessage st of
        None \<Rightarrow> st
      | Some m \<Rightarrow> st\<lparr>successMessage := Some (m\<lparr>suc_display := js ''block'',
                                                  suc_role := Some (js ''alert'')\<rparr>),
                     activeElement := Some SuccessMessage\<rparr>)"

definition hideSuccess :: "page \<Rightarrow> page" where
  "hideSuccess st =
     (case successMessage st of
        None \<Rightarrow> st
      | Some m \<Rightarrow> st\<lparr>successMessage := Some (m\<lparr>suc_display := js ''none''\<rparr>)\<rparr>)"

text \<open>\<^verbatim>\<open>contactForm.reset()\<close>: every control goes back to its default value.\<close>

definition form_reset :: "page \<Rightarrow> page" where
  "form_reset st =
     st\<lparr>formFields := (\<lambda>f. (formFields st f)\<lparr>element :=
            map_option (\<lambda>el. el\<lparr>el_value := defaultValue el\<rparr>) (element (formFields st f))\<rparr>)\<rparr>"

definition resetForm :: "page \<Rightarrow> page" where
  "resetForm st = hideSuccess (fold clearError Object_keys (form_reset st))"

section \<open>Submission\<close>

text \<open>
  \<^verbatim>\<open>handleSubmit\<close> is an asynchronous function. It runs without interruption up to
  the \<^verbatim>\<open>await\<close> on the collaborator, where it is suspended with the data and the
  original button label it captured; it may also return early, or throw when the form has
  no submit button. \<^verbatim>\<open>preventDefault\<close> touches nothing of the page and is left out.
\<close>

datatype exit = Returned | Threw | Awaiting form_data jsstring

definition marked_invalid :: "page \<Rightarrow> jsstring \<Rightarrow> bool" where
  "marked_invalid st fieldName \<longleftrightarrow>
     (case field_of_key fieldName of
        None \<Rightarrow> False
      | Some f \<Rightarrow>
          (case element (formFields st f) of
             None \<Rightarrow> False
           | Some el \<Rightarrow> aria_invalid el = Some (js ''true'')))"

definition focusFirstError :: "page \<Rightarrow> page" where
  "focusFirstError st =
     (case List.find (marked_invalid st) Object_keys of
        None \<Rightarrow> st
      | Some firstError \<Rightarrow>
          (case field_of_key firstError of
             None \<Rightarrow> st
           | Some f \<Rightarrow>
               (case element (formFields st f) of
                  None \<Rightarrow> st
                | Some el \<Rightarrow> st\<lparr>activeElement := Some (FieldInput f)\<rparr>)))"

definition FormData_get :: "page \<Rightarrow> field_id \<Rightarrow> jsstring option" where
  "FormData_get st f = map_option el_value (element (formFields st f))"

definition collect_data :: "page \<Rightarrow> form_data" where
  "collect_data st =
     \<lparr>data_name = FormData_get st Name,
      data_email = FormData_get st Email,
      data_phone = (case FormData_get st Phone of None \<Rightarrow> [] | Some v \<Rightarrow> v),
      data_subject = FormData_get st Subject,
      data_message = FormData_get st Message\<rparr>"

text \<open>The handler from the call of \<^verbatim>\<open>validateForm\<close> on, up to the \<^verbatim>\<open>await\<close>.\<close>

definition handleSubmit_validate :: "page \<Rightarrow> page \<times> exit" where
  "handleSubmit_validate st =
     (case validateForm st of
        (st1, ok) \<Rightarrow>
          if \<not> ok then (focusFirstError st1, Returned)
          else
            (let data = collect_data st1
             in case submitButton st1 of
                  None \<Rightarrow> (st1, Threw)
                | Some b \<Rightarrow>
                    (st1\<lparr>submitButton := Some (b\<lparr>disabled := True,
                                                   btn_textContent := js ''Sending...''\<rparr>),
                         submitted := submitted st1 @ [data]\<rparr>,
                     Awaiting data (btn_textContent b))))"

definition handleSubmit :: "page \<Rightarrow> page \<times> exit" where
  "handleSubmit st = handleSubmit_validate (hideSuccess st)"

text \<open>
  The collaborator settles the promise one way or the other. The one in the script,
  \<^verbatim>\<open>simulateFormSubmission\<close>, always resolves (after one second).
\<close>

datatype 'e outcome = Fulfilled | Rejected 'e

definition simulateFormSubmission :: "form_data \<Rightarrow> 'e outcome" where
  "simulateFormSubmission data = Fulfilled"

definition restore_button :: "jsstring \<Rightarrow> page \<Rightarrow> page" where
  "restore_button originalButtonText st =
     st\<lparr>submitButton := map_option (\<lambda>b. b\<lparr>disabled := False,
                                             btn_textContent := originalButtonText\<rparr>)
                                   (submitButton st)\<rparr>"

text \<open>The rest of the \<^verbatim>\<open>try\<close> block: the indicator, and the reset timer of 3000 ms.\<close>

definition handleSubmit_fulfilled :: "jsstring \<Rightarrow> page \<Rightarrow> page" where
  "handleSubmit_fulfilled originalButtonText st =
     (let st1 = showSuccess st
      in st1\<lparr>timeouts := timeouts st1 @ [(3000, originalButtonText)]\<rparr>)"

text \<open>The callback of that timer.\<close>

definition reset_callback :: "jsstring \<Rightarrow> page \<Rightarrow> page" where
  "reset_callback originalButtonText st =
     restore_button originalButtonText
       (resetForm (st\<lparr>timeouts := remove1 (3000, originalButtonText) (timeouts st)\<rparr>))"

text \<open>The \<^verbatim>\<open>catch\<close> block; the error it caught is not used.\<close>

definition handleSubmit_rejected :: "'e \<Rightarrow> jsstring \<Rightarrow> page \<Rightarrow> page" where
  "handleSubmit_rejected err originalButtonText st =
     restore_button originalButtonText
       (showError (js ''message'')
          (js ''Failed to send message. Please try again or contact us directly.'') st)"

section \<open>The life of a submission attempt\<close>

text \<open>
  The listeners that \<^verbatim>\<open>init\<close> registers on every field that has an input: on blur the
  field is validated; on input it is validated again when it carries the invalid marker.
  The browser has stored the new value before the input listener runs.
\<close>

definition has_input :: "page \<Rightarrow> jsstring \<Rightarrow> bool" where
  "has_input st fieldName \<longleftrightarrow>
     (case field_of_key fieldName of
        None \<Rightarrow> False
      | Some f \<Rightarrow> element (formFields st f) \<noteq> None)"

definition blur_listener :: "jsstring \<Rightarrow> page \<Rightarrow> page" where
  "blur_listener fieldName st = fst (validateField fieldName st)"

definition input_listener :: "jsstring \<Rightarrow> page \<Rightarrow> page" where
  "input_listener fieldName st =
     (if marked_invalid st fieldName then fst (validateField fieldName st) else st)"

definition set_value :: "jsstring \<Rightarrow> jsstring \<Rightarrow> page \<Rightarrow> page" where
  "set_value fieldName v st =
     (case field_of_key fieldName of
        None \<Rightarrow> st
      | Some f \<Rightarrow>
          st\<lparr>formFields := (formFields st)(f := (formFields st f)\<lparr>element :=
               map_option (\<lambda>el. el\<lparr>el_value := v\<rparr>) (element (formFields st f))\<rparr>)\<rparr>)"

text \<open>
  What the script has in flight besides the page: the activation of the handler that is
  on the stack, if any, and the activations suspended at the \<^verbatim>\<open>await\<close>, each with the
  data and the button label it captured. An activation on the stack stands either before
  its call of \<^verbatim>\<open>validateForm\<close> (line 228) or at the entry of its \<^verbatim>\<open>catch\<close> block
  (line 273) with the error it caught. The pending reset timers are part of the page.
\<close>

datatype 'e frame = Validate | Catch 'e jsstring

record 'e system =
  view :: page
  running :: "'e frame option"
  suspended :: "(form_data \<times> jsstring) list"

text \<open>
  What happens to the script: a submit event reaches the handler, the activation on the
  stack runs on, the collaborator settles the promise of a suspended activation, the
  oldest reset timer runs out, a field loses focus, a field gets a new value. The script
  has one thread, so nothing but \<open>Proceed\<close> happens while an activation is on the stack.
  The handler starts on whatever page the submit event finds. An activation that throws
  for want of a submit button ends there, with the page as validation left it.
\<close>

datatype 'e event =
    SubmitRequested
  | Proceed
  | Settled nat "'e outcome"
  | ResetTimerElapsed
  | FieldBlurred jsstring
  | FieldChanged jsstring jsstring

fun step :: "'e event \<Rightarrow> 'e system \<Rightarrow> 'e system option" where
  "step SubmitRequested sys =
     (if running sys = None
      then Some (sys\<lparr>view := hideSuccess (view sys), running := Some Validate\<rparr>)
      else None)"
| "step Proceed sys =
     (case running sys of
        None \<Rightarrow> None
      | Some Validate \<Rightarrow>
          (case handleSubmit_validate (view sys) of
             (st', Awaiting data originalButtonText) \<Rightarrow>
               Some (sys\<lparr>view := st', running := None,
                         suspended := suspended sys @ [(data, originalButtonText)]\<rparr>)
           | (st', Returned) \<Rightarrow> Some (sys\<lparr>view := st', running := None\<rparr>)
           | (st', Threw) \<Rightarrow> Some (sys\<lparr>view := st', running := None\<rparr>))
      | Some (Catch err originalButtonText) \<Rightarrow>
          Some (sys\<lparr>view := handleSubmit_rejected err originalButtonText (view sys),
                    running := None\<rparr>))"
| "step (Settled i result) sys =
     (if running sys = None \<and> i < length (suspended sys)
      then
        (let originalButtonText = snd (suspended sys ! i);
             others = take i (suspended sys) @ drop (Suc i) (suspended sys)
         in case result of
              Fulfilled \<Rightarrow>
                Some (sys\<lparr>view := handleSubmit_fulfilled originalButtonText (view sys),
                          suspended := others\<rparr>)
            | Rejected err \<Rightarrow>
                Some (sys\<lparr>running := Some (Catch err originalButtonText),
                          suspended := others\<rparr>))
      else None)"
| "step ResetTimerElapsed sys =
     (if running sys = None
      then
        (case timeouts (view sys) of
           [] \<Rightarrow> None
         | (ms, originalButtonText) # _ \<Rightarrow>
             Some (sys\<lparr>view := reset_callback originalButtonText (view sys)\<rparr>))
      else None)"
| "step (FieldBlurred fieldName) sys =
     (if running sys = None \<and> has_input (view sys) fieldName
      then Some (sys\<lparr>view := blur_listener fieldName (view sys)\<rparr>)
      else None)"
| "step (FieldChanged fieldName v) sys =
     (if running sys = None \<and> has_input (view sys) fieldName
      then Some (sys\<lparr>view := input_listener fieldName (set_value fieldName v (view sys))\<rparr>)
      else None)"

text \<open>
  The state of the submission, read off what is in flight: an activation before its
  validation is Validating, one in its \<^verbatim>\<open>catch\<close> block is Failed; with nothing on the
  stack, a suspended activation is Sending, a pending reset timer is Succeeded, and
  nothing pending is Idle.
\<close>

datatype SubmissionState = Idle | Validating | Sending | Succeeded | Failed

definition phase :: "'e system \<Rightarrow> SubmissionState" where
  "phase sys =
     (case running sys of
        Some Validate \<Rightarrow> Validating
      | Some (Catch err originalButtonText) \<Rightarrow> Failed
      | None \<Rightarrow>
          if suspended sys \<noteq> [] then Sending
          else if timeouts (view sys) \<noteq> [] then Succeeded
          else Idle)"

text \<open>
  The transitions the specification allows: Idle to Validating, Validating to Sending or
  back to Idle, Sending to Succeeded or Failed, and both of these back to Idle.
\<close>

fun spec_transition :: "SubmissionState \<Rightarrow> SubmissionState \<Rightarrow> bool" where
  "spec_transition Idle Validating = True"
| "spec_transition Validating Sending = True"
| "spec_transition Validating Idle = True"
| "spec_transition Sending Succeeded = True"
| "spec_transition Sending Failed = True"
| "spec_transition Succeeded Idle = True"
| "spec_transition Failed Idle = True"
| "spec_transition _ _ = False"

text \<open>
  Modelled from the spec: the submit control of the rendered form, which is not among the
  sources. A disabled control starts no submission; an enabled one, or a form without
  one, delivers the submit event to the handler.
\<close>

definition submit_control :: "page \<Rightarrow> (page \<times> exit) option" where
  "submit_control st =
     (case submitButton st of
        None \<Rightarrow> Some (handleSubmit st)
      | Some b \<Rightarrow> if disabled b then None else Some (handleSubmit st))"

text \<open>
  The script as the page runs it: it starts with nothing in flight, and its submit events
  are those the submit control lets through.
\<close>

definition through_control :: "'e event \<Rightarrow> 'e system \<Rightarrow> bool" where
  "through_control ev sys \<longleftrightarrow> (ev = SubmitRequested \<longrightarrow> submit_control (view sys) \<noteq> None)"

definition initial :: "'e system \<Rightarrow> bool" where
  "initial sys \<longleftrightarrow> running sys = None \<and> suspended sys = [] \<and> timeouts (view sys) = []"

inductive reachable :: "'e system \<Rightarrow> bool" where
  at_start: "initial sys \<Longrightarrow> reachable sys"
| after_step: "reachable sys \<Longrightarrow> through_control ev sys \<Longrightarrow> step ev sys = Some sys' \<Longrightarrow>
         reachable sys'"

text \<open>
  At most one attempt is in flight, and the submit button is disabled as long as an
  activation is suspended or a reset timer is pending.
\<close>

definition one_in_flight :: "'e system \<Rightarrow> bool" where
  "one_in_flight sys \<longleftrightarrow>
     (running sys \<noteq> None \<longrightarrow> suspended sys = [] \<and> timeouts (view sys) = []) \<and>
     (suspended sys \<noteq> [] \<longrightarrow>
        (\<exists>d l. suspended sys = [(d, l)]) \<and> timeouts (view sys) = [] \<and>
        (\<exists>b. submitButton (view sys) = Some b \<and> disabled b)) \<and>
     (timeouts (view sys) \<noteq> [] \<longrightarrow>
        (\<exists>l. timeouts (view sys) = [(3000, l)]) \<and> suspended sys = [] \<and>
        (\<exists>b. submitButton (view sys) = Some b \<and> disabled b))"

text \<open>
  The characters the specification lists for the phone field: digits, space, plus, minus
  and parentheses.
\<close>

definition spec_phoneChar :: "code_unit \<Rightarrow> bool" where
  "spec_phoneChar c \<longleftrightarrow> isDigit c \<or> c = 0x20 \<or> c = 0x2B \<or> c = 0x2D \<or> c = 0x28 \<or> c = 0x29"

section \<open>Sample pages\<close>

text \<open>
  A completely rendered form holding the given values: no error shown, the indicator
  hidden, the button enabled; and a page on which the lookups of one field found nothing.
\<close>

definition rendered_form :: "(field_id \<Rightarrow> jsstring) \<Rightarrow> page" where
  "rendered_form vals =
     \<lparr>formFields = (\<lambda>f.
        \<lparr>element = Some \<lparr>el_value = vals f, aria_invalid = None, class_error = False,
                          defaultValue = []\<rparr>,
         error = Some \<lparr>err_textContent = [], err_display = js ''none''\<rparr>\<rparr>),
      successMessage = Some \<lparr>suc_display = js ''none'', suc_role = None\<rparr>,
      submitButton = Some \<lparr>disabled = False, btn_textContent = js ''Send Message''\<rparr>,
      activeElement = None,
      submitted = [],
      timeouts = []\<rparr>"

definition without_field :: "field_id \<Rightarrow> page \<Rightarrow> page" where
  "without_field f st = st\<lparr>formFields := (formFields st)(f := \<lparr>element = None, error = None\<rparr>)\<rparr>"

text \<open>A phone number typed with a tab between its groups.\<close>

definition tabbed_phone :: jsstring where
  "tabbed_phone = js ''555'' @ [0x0009] @ js ''1234''"

fun valid_entries :: "field_id \<Rightarrow> jsstring" where
  "valid_entries Name = js ''Jo''"
| "valid_entries Email = js ''jo@x.com''"
| "valid_entries Phone = []"
| "valid_entries Subject = js ''General''"
| "valid_entries Message = js ''Hello there!''"

fun invalid_entries :: "field_id \<Rightarrow> jsstring" where
  "invalid_entries Name = js ''Jo''"
| "invalid_entries Email = js ''not-an-email''"
| "invalid_entries Phone = []"
| "invalid_entries Subject = js ''General''"
| "invalid_entries Message = js ''too short''"

text \<open>The valid sample form after the handler has run up to its \<^verbatim>\<open>await\<close>.\<close>

definition sending_page :: page where
  "sending_page = fst (handleSubmit (rendered_form valid_entries))"

text \<open>
  The valid sample form through an attempt: nothing in flight, the handler entered, the
  handler suspended, the reset timer pending, and the handler in its \<^verbatim>\<open>catch\<close> block.
\<close>

definition idle_system :: "unit system" where
  "idle_system = \<lparr>view = rendered_form valid_entries, running = None, suspended = []\<rparr>"

definition validating_system :: "unit system" where
  "validating_system =
     \<lparr>view = hideSuccess (rendered_form valid_entries), running = Some Validate,
      suspended = []\<rparr>"

definition sending_system :: "unit system" where
  "sending_system =
     \<lparr>view = sending_page, running = None,
      suspended =
        [(collect_data (fst (validateForm (hideSuccess (rendered_form valid_entries)))),
          js ''Send Message'')]\<rparr>"

definition succeeded_system :: "unit system" where
  "succeeded_system =
     \<lparr>view = handleSubmit_fulfilled (js ''Send Message'') sending_page, running = None,
      suspended = []\<rparr>"

text \<open>The valid sample form without a submit button, the handler entered.\<close>

definition no_button_system :: "unit system" where
  "no_button_system =
     \<lparr>view = hideSuccess ((rendered_form valid_entries)\<lparr>submitButton := None\<rparr>),
      running = Some Validate, suspended = []\<rparr>"

definition failed_system :: "unit system" where
  "failed_system =
     \<lparr>view = sending_page, running = Some (Catch () (js ''Send Message'')),
      suspended = []\<rparr>"

section \<open>Auxiliary facts\<close>

lemma trim_Nil: "trim [] = []"
  by (simp add: trim_def)

lemma dropWhile_hd: "v \<noteq> [] \<Longrightarrow> \<not> P (hd v) \<Longrightarrow> dropWhile P v = v"
  by (cases v) auto

lemma trim_keeps:
  assumes "v \<noteq> []" "\<not> isWhiteSpace (hd v)" "\<not> isWhiteSpace (last v)"
  shows "trim v = v"
proof -
  have "dropWhile isWhiteSpace v = v"
    using assms by (simp add: dropWhile_hd)
  moreover have "dropWhile isWhiteSpace (rev v) = rev v"
    using assms by (simp add: dropWhile_hd hd_rev)
  ultimately show ?thesis
    by (simp add: trim_def)
qed

lemma not_ws_a: "\<not> isWhiteSpace 0x61"
  by (simp add: isWhiteSpace_def)

lemma trim_replicate_a: "trim (replicate n 0x61) = replicate n 0x61"
  by (cases n) (simp_all add: trim_Nil trim_keeps not_ws_a del: replicate_Suc)

section \<open>The regular expression of the email field\<close>

text \<open>
  \<open>emailRegex_test\<close> accepts exactly the strings the regular expression matches: a
  non-empty local part, an \<^verbatim>\<open>@\<close>, a non-empty part, a dot and a non-empty part, none of
  the three parts holding white space or an \<^verbatim>\<open>@\<close>.
\<close>

lemma emailChar_at_dot: "\<not> emailChar 0x40" "emailChar 0x2E"
  by (simp_all add: emailChar_def isWhiteSpace_def)

lemma emailRegex_test_iff:
  "emailRegex_test v \<longleftrightarrow>
     (\<exists>a b c. v = a @ 0x40 # b @ 0x2E # c \<and> a \<noteq> [] \<and> b \<noteq> [] \<and> c \<noteq> [] \<and>
        list_all emailChar a \<and> list_all emailChar b \<and> list_all emailChar c)"
proof
  assume t: "emailRegex_test v"
  let ?a = "takeWhile emailChar v"
  from t obtain rest where d: "dropWhile emailChar v = 0x40 # rest"
    and r: "list_all emailChar rest" and dot: "0x2E \<in> set (butlast (tl rest))"
    by (auto simp add: emailRegex_test_def split: list.splits)
  from t have a: "?a \<noteq> []"
    by (simp add: emailRegex_test_def)
  from dot obtain xs ys where s: "butlast (tl rest) = xs @ 0x2E # ys"
    by (auto dest: split_list)
  then have "tl rest \<noteq> []"
    by auto
  then have "rest = hd rest # butlast (tl rest) @ [last (tl rest)]"
    by (cases rest) simp_all
  with s have rest: "rest = (hd rest # xs) @ 0x2E # (ys @ [last (tl rest)])"
    by simp
  have "v = ?a @ dropWhile emailChar v"
    by simp
  with d rest have "v = ?a @ 0x40 # (hd rest # xs) @ 0x2E # (ys @ [last (tl rest)])"
    by simp
  moreover have "list_all emailChar ?a"
    by (simp add: list_all_iff) (meson set_takeWhileD)
  moreover have "list_all emailChar ((hd rest # xs) @ 0x2E # (ys @ [last (tl rest)]))"
    using r rest by simp
  then have "list_all emailChar (hd rest # xs)"
    "list_all emailChar (ys @ [last (tl rest)])"
    by (simp_all only: list_all_append list.pred_inject)
  ultimately show "\<exists>a b c. v = a @ 0x40 # b @ 0x2E # c \<and> a \<noteq> [] \<and> b \<noteq> [] \<and> c \<noteq> [] \<and>
        list_all emailChar a \<and> list_all emailChar b \<and> list_all emailChar c"
    using a by blast
next
  assume "\<exists>a b c. v = a @ 0x40 # b @ 0x2E # c \<and> a \<noteq> [] \<and> b \<noteq> [] \<and> c \<noteq> [] \<and>
        list_all emailChar a \<and> list_all emailChar b \<and> list_all emailChar c"
  then obtain a b c where v: "v = a @ 0x40 # b @ 0x2E # c"
    and ne: "a \<noteq> []" "b \<noteq> []" "c \<noteq> []"
    and ok: "list_all emailChar a" "list_all emailChar b" "list_all emailChar c"
    by blast
  have tw: "takeWhile emailChar v = a"
    using ok(1) by (simp add: v takeWhile_tail emailChar_at_dot list_all_iff)
  have dw: "dropWhile emailChar v = 0x40 # b @ 0x2E # c"
    using ok(1) by (simp add: v dropWhile_append3 emailChar_at_dot list_all_iff)
  have "butlast (tl (b @ 0x2E # c)) = tl b @ 0x2E # butlast c"
    using ne by (cases b) (simp_all add: butlast_append)
  then have "0x2E \<in> set (butlast (tl (b @ 0x2E # c)))"
    by simp
  then show "emailRegex_test v"
    using ne ok by (simp add: emailRegex_test_def tw dw emailChar_at_dot)
qed

section \<open>The length bounds of name and message\<close>

text \<open>
  C7. For the name field, an empty value (also one of white space only) yields
  ``Name is required''; a value whose trimmed length is 1 yields ``Name must be at least 2
  characters''; trimmed lengths 2 and 100 are accepted (the empty message); trimmed length
  101 yields ``Name must be less than 100 characters''.
\<close>

theorem validateName_bounds:
  "(v = [] \<or> length (trim v) = 0 \<longrightarrow> validateName v = js ''Name is required'') \<and>
   (length (trim v) = 1 \<longrightarrow> validateName v = js ''Name must be at least 2 characters'') \<and>
   (length (trim v) = 2 \<or> length (trim v) = 100 \<longrightarrow> validateName v = []) \<and>
   (length (trim v) = 101 \<longrightarrow> validateName v = js ''Name must be less than 100 characters'')"
  by (auto simp: validateName_def trim_Nil)

theorem validateName_bounds_witness:
  "validateName [] = js ''Name is required'' \<and>
   validateName (js ''   '') = js ''Name is required'' \<and>
   validateName (js '' J '') = js ''Name must be at least 2 characters'' \<and>
   validateName (js ''Jo'') = [] \<and>
   validateName (replicate 100 0x61) = [] \<and>
   validateName (replicate 101 0x61) = js ''Name must be less than 100 characters''"
proof -
  have t: "trim (js ''   '') = []" "trim (js '' J '') = [0x4A]" "trim (js ''Jo'') = js ''Jo''"
    by (simp_all add: trim_def js_def isWhiteSpace_def)
  show ?thesis
    using validateName_bounds [of "[]"] validateName_bounds [of "js ''   ''"]
      validateName_bounds [of "js '' J ''"] validateName_bounds [of "js ''Jo''"]
      validateName_bounds [of "replicate 100 0x61"] validateName_bounds [of "replicate 101 0x61"]
    by (simp add: t trim_replicate_a) (simp add: js_def)
qed

text \<open>
  C8. For the message field, an empty value yields ``Message is required''; a value whose
  trimmed length is 9 yields ``Message must be at least 10 characters''; trimmed length 10
  is accepted; trimmed length 2001 yields ``Message must be less than 2000 characters''.
\<close>

theorem validateMessage_bounds:
  "(v = [] \<or> length (trim v) = 0 \<longrightarrow> validateMessage v = js ''Message is required'') \<and>
   (length (trim v) = 9 \<longrightarrow> validateMessage v = js ''Message must be at least 10 characters'') \<and>
   (length (trim v) = 10 \<longrightarrow> validateMessage v = []) \<and>
   (length (trim v) = 2001 \<longrightarrow>
      validateMessage v = js ''Message must be less than 2000 characters'')"
  by (auto simp: validateMessage_def trim_Nil)

theorem validateMessage_bounds_witness:
  "validateMessage [] = js ''Message is required'' \<and>
   validateMessage (js ''too short'') = js ''Message must be at least 10 characters'' \<and>
   validateMessage (js ''0123456789'') = [] \<and>
   validateMessage (replicate 2001 0x61) = js ''Message must be less than 2000 characters''"
proof -
  have t: "trim (js ''too short'') = js ''too short''" "trim (js ''0123456789'') = js ''0123456789''"
    by (simp_all add: trim_def js_def isWhiteSpace_def)
  show ?thesis
    using validateMessage_bounds [of "[]"] validateMessage_bounds [of "js ''too short''"]
      validateMessage_bounds [of "js ''0123456789''"]
      validateMessage_bounds [of "replicate 2001 0x61"]
    by (simp add: t trim_replicate_a) (simp add: js_def)
qed


section \<open>Frame and locality of the error display\<close>

lemma field_of_key_simps:
  "field_of_key (js ''name'') = Some Name"
  "field_of_key (js ''email'') = Some Email"
  "field_of_key (js ''phone'') = Some Phone"
  "field_of_key (js ''subject'') = Some Subject"
  "field_of_key (js ''message'') = Some Message"
  by (simp_all add: field_of_key_def js_def)

lemma field_of_key_SomeD:
  "field_of_key k = Some f \<Longrightarrow> k \<in> set Object_keys"
  by (auto simp: field_of_key_def Object_keys_def split: if_splits)

lemma showError_frame:
  "field_of_key k \<noteq> Some g \<Longrightarrow> formFields (showError k m st) g = formFields st g"
  by (simp add: showError_def split: option.splits)

lemma clearError_frame:
  "field_of_key k \<noteq> Some g \<Longrightarrow> formFields (clearError k st) g = formFields st g"
  by (simp add: clearError_def split: option.splits)

lemma showError_rest:
  "successMessage (showError k m st) = successMessage st"
  "submitButton (showError k m st) = submitButton st"
  "activeElement (showError k m st) = activeElement st"
  "submitted (showError k m st) = submitted st"
  "timeouts (showError k m st) = timeouts st"
  by (simp_all add: showError_def split: option.splits)

lemma clearError_rest:
  "successMessage (clearError k st) = successMessage st"
  "submitButton (clearError k st) = submitButton st"
  "activeElement (clearError k st) = activeElement st"
  "submitted (clearError k st) = submitted st"
  "timeouts (clearError k st) = timeouts st"
  by (simp_all add: clearError_def split: option.splits)

lemma validateField_Some:
  assumes "field_of_key k = Some f" "element (formFields st f) = Some el"
  shows "validateField k st =
     (if passes f (el_value el) then (clearError k st, True)
      else (showError k (validator f (el_value el)) st, False))"
  using assms by (auto simp add: validateField_def passes_def Let_def)

lemma validateField_None:
  "field_of_key k = None \<Longrightarrow> validateField k st = (st, True)"
  "field_of_key k = Some f \<Longrightarrow> element (formFields st f) = None \<Longrightarrow>
     validateField k st = (st, True)"
  by (simp_all add: validateField_def)

lemma validateField_frame:
  "field_of_key k \<noteq> Some g \<Longrightarrow> formFields (fst (validateField k st)) g = formFields st g"
proof (cases "field_of_key k")
  case None
  then show ?thesis by (simp add: validateField_None)
next
  case (Some f)
  assume "field_of_key k \<noteq> Some g"
  with Some show ?thesis
    by (cases "element (formFields st f)")
      (simp_all add: validateField_None validateField_Some showError_frame clearError_frame)
qed

lemma validateField_rest:
  "successMessage (fst (validateField k st)) = successMessage st"
  "submitButton (fst (validateField k st)) = submitButton st"
  "activeElement (fst (validateField k st)) = activeElement st"
  "submitted (fst (validateField k st)) = submitted st"
  "timeouts (fst (validateField k st)) = timeouts st"
  by (simp_all add: validateField_def Let_def showError_rest clearError_rest
      split: option.splits)

lemma showError_local:
  "field_of_key k = Some f \<Longrightarrow> formFields st f = formFields st' f \<Longrightarrow>
   formFields (showError k m st) f = formFields (showError k m st') f"
  by (simp add: showError_def split: option.splits)

lemma clearError_local:
  "field_of_key k = Some f \<Longrightarrow> formFields st f = formFields st' f \<Longrightarrow>
   formFields (clearError k st) f = formFields (clearError k st') f"
  by (simp add: clearError_def split: option.splits)

lemma validateField_local:
  assumes k: "field_of_key k = Some f" and eq: "formFields st f = formFields st' f"
  shows "snd (validateField k st) = snd (validateField k st')"
    and "formFields (fst (validateField k st)) f = formFields (fst (validateField k st')) f"
proof -
  have "snd (validateField k st) = snd (validateField k st') \<and>
    formFields (fst (validateField k st)) f = formFields (fst (validateField k st')) f"
  proof (cases "element (formFields st' f)")
    case None
    then show ?thesis
      using validateField_None(2) [OF k, of st] validateField_None(2) [OF k, of st'] eq
      by simp
  next
    case (Some el)
    then have "element (formFields st f) = Some el"
      by (simp add: eq)
    then show ?thesis
      using Some showError_local [OF k eq] clearError_local [OF k eq]
      by (simp add: validateField_Some [OF k])
  qed
  then show "snd (validateField k st) = snd (validateField k st')"
    and "formFields (fst (validateField k st)) f = formFields (fst (validateField k st')) f"
    by simp_all
qed


section \<open>validateField\<close>

text \<open>
  C10. For a name that is none of the five declared fields, and for a declared field
  whose input element was not found, validateField returns true and leaves the page, so
  the error display of every field, as it was.
\<close>

theorem validateField_unknown_or_absent:
  "field_of_key fieldName = None \<or>
   (\<exists>f. field_of_key fieldName = Some f \<and> element (formFields st f) = None) \<Longrightarrow>
   validateField fieldName st = (st, True)"
  by (auto simp: validateField_def)

theorem validateField_unknown_or_absent_witness:
  "field_of_key (js ''address'') = None \<and>
   validateField (js ''address'') (rendered_form invalid_entries) =
     (rendered_form invalid_entries, True) \<and>
   field_of_key (js ''email'') = Some Email \<and>
   element (formFields (without_field Email (rendered_form invalid_entries)) Email) = None \<and>
   validateField (js ''email'') (without_field Email (rendered_form invalid_entries)) =
     (without_field Email (rendered_form invalid_entries), True)"
proof -
  have a: "field_of_key (js ''address'') = None"
    by (simp add: field_of_key_def js_def)
  have b: "element (formFields (without_field Email (rendered_form invalid_entries)) Email) = None"
    by (simp add: without_field_def)
  have c: "field_of_key (js ''email'') = Some Email"
    by (rule field_of_key_simps)
  have 1: "validateField (js ''address'') (rendered_form invalid_entries) =
     (rendered_form invalid_entries, True)"
    using a by (intro validateField_unknown_or_absent disjI1)
  have 2: "validateField (js ''email'') (without_field Email (rendered_form invalid_entries)) =
     (without_field Email (rendered_form invalid_entries), True)"
    using b c by (intro validateField_unknown_or_absent disjI2 exI [of _ Email] conjI)
  from a 1 c b 2 show ?thesis
    by (intro conjI)
qed

text \<open>
  C9. validateField changes the error display (text, visibility, invalid marker) of the
  field it is called for only: every other field is as before, and so are the success
  indicator, the submit button, the focus, the collaborator calls and the timers.
\<close>

theorem validateField_own_field_only:
  "(\<forall>g. field_of_key fieldName \<noteq> Some g \<longrightarrow>
        formFields (fst (validateField fieldName st)) g = formFields st g) \<and>
   successMessage (fst (validateField fieldName st)) = successMessage st \<and>
   submitButton (fst (validateField fieldName st)) = submitButton st \<and>
   activeElement (fst (validateField fieldName st)) = activeElement st \<and>
   submitted (fst (validateField fieldName st)) = submitted st \<and>
   timeouts (fst (validateField fieldName st)) = timeouts st"
  by (simp add: validateField_frame validateField_rest)


theorem validateField_own_field_only_witness:
  "field_of_key (js ''email'') \<noteq> Some Message \<and>
   formFields (fst (validateField (js ''email'') (rendered_form invalid_entries))) Message =
     formFields (rendered_form invalid_entries) Message \<and>
   formFields (fst (validateField (js ''email'') (rendered_form invalid_entries))) Email \<noteq>
     formFields (rendered_form invalid_entries) Email"
proof -
  have k: "field_of_key (js ''email'') = Some Email"
    by (rule field_of_key_simps)
  have el: "element (formFields (rendered_form invalid_entries) Email) =
      Some \<lparr>el_value = js ''not-an-email'', aria_invalid = None, class_error = False,
            defaultValue = []\<rparr>"
    by (simp add: rendered_form_def)
  have np: "\<not> passes Email (js ''not-an-email'')"
    by (simp add: passes_def validateEmail_def trim_def emailRegex_test_def emailChar_def
        isWhiteSpace_def js_def)
  have changed: "formFields (fst (validateField (js ''email'') (rendered_form invalid_entries))) Email
      \<noteq> formFields (rendered_form invalid_entries) Email"
    by (simp add: validateField_Some [OF k el] np showError_def k)
      (simp add: rendered_form_def js_def)
  show ?thesis
    using validateField_own_field_only [of "js ''email''" "rendered_form invalid_entries"] changed
    by (simp add: k)
qed

section \<open>validateForm\<close>

lemma validateForm_unfold:
  "validateForm st =
     (case validateField (js ''name'') st of (s1, r1) \<Rightarrow>
      case validateField (js ''email'') s1 of (s2, r2) \<Rightarrow>
      case validateField (js ''phone'') s2 of (s3, r3) \<Rightarrow>
      case validateField (js ''subject'') s3 of (s4, r4) \<Rightarrow>
      case validateField (js ''message'') s4 of (s5, r5) \<Rightarrow>
        (s5, r1 \<and> r2 \<and> r3 \<and> r4 \<and> r5))"
  by (auto simp add: validateForm_def Object_keys_def split: prod.splits)

lemma field_of_key_cases:
  assumes "field_of_key k = Some f"
  shows "(k = js ''name'' \<and> f = Name) \<or> (k = js ''email'' \<and> f = Email) \<or>
    (k = js ''phone'' \<and> f = Phone) \<or> (k = js ''subject'' \<and> f = Subject) \<or>
    (k = js ''message'' \<and> f = Message)"
  using assms by (auto simp: field_of_key_def split: if_splits)

lemma validateForm_summary:
  shows validateForm_result:
      "snd (validateForm st) \<longleftrightarrow> (\<forall>k \<in> set Object_keys. snd (validateField k st))"
    and validateForm_fields:
      "\<And>k f. field_of_key k = Some f \<Longrightarrow>
         formFields (fst (validateForm st)) f = formFields (fst (validateField k st)) f"
    and validateForm_rest:
      "successMessage (fst (validateForm st)) = successMessage st"
      "submitButton (fst (validateForm st)) = submitButton st"
      "activeElement (fst (validateForm st)) = activeElement st"
      "submitted (fst (validateForm st)) = submitted st"
      "timeouts (fst (validateForm st)) = timeouts st"
proof -
  let ?n = "js ''name''" and ?e = "js ''email''" and ?p = "js ''phone''"
    and ?s = "js ''subject''" and ?m = "js ''message''"
  define s1 where "s1 = fst (validateField ?n st)"
  define s2 where "s2 = fst (validateField ?e s1)"
  define s3 where "s3 = fst (validateField ?p s2)"
  define s4 where "s4 = fst (validateField ?s s3)"
  define s5 where "s5 = fst (validateField ?m s4)"
  note defs = s1_def s2_def s3_def s4_def s5_def
  have vf: "validateForm st =
      (s5, snd (validateField ?n st) \<and> snd (validateField ?e s1) \<and> snd (validateField ?p s2) \<and>
           snd (validateField ?s s3) \<and> snd (validateField ?m s4))"
    by (simp add: validateForm_unfold defs split: prod.splits)
  have f1: "formFields s1 g = formFields st g" if "g \<noteq> Name" for g
    unfolding s1_def using that by (simp add: validateField_frame field_of_key_simps)
  have f2: "formFields s2 g = formFields s1 g" if "g \<noteq> Email" for g
    unfolding s2_def using that by (simp add: validateField_frame field_of_key_simps)
  have f3: "formFields s3 g = formFields s2 g" if "g \<noteq> Phone" for g
    unfolding s3_def using that by (simp add: validateField_frame field_of_key_simps)
  have f4: "formFields s4 g = formFields s3 g" if "g \<noteq> Subject" for g
    unfolding s4_def using that by (simp add: validateField_frame field_of_key_simps)
  have f5: "formFields s5 g = formFields s4 g" if "g \<noteq> Message" for g
    unfolding s5_def using that by (simp add: validateField_frame field_of_key_simps)
  have e: "formFields s1 Email = formFields st Email"
    by (simp add: f1)
  have p: "formFields s2 Phone = formFields st Phone"
    by (simp add: f1 f2)
  have s: "formFields s3 Subject = formFields st Subject"
    by (simp add: f1 f2 f3)
  have m: "formFields s4 Message = formFields st Message"
    by (simp add: f1 f2 f3 f4)
  note loc_e = validateField_local [OF field_of_key_simps(2) e]
    and loc_p = validateField_local [OF field_of_key_simps(3) p]
    and loc_s = validateField_local [OF field_of_key_simps(4) s]
    and loc_m = validateField_local [OF field_of_key_simps(5) m]
  show "snd (validateForm st) \<longleftrightarrow> (\<forall>k \<in> set Object_keys. snd (validateField k st))"
    by (simp add: vf loc_e(1) loc_p(1) loc_s(1) loc_m(1) Object_keys_def)
  have name: "formFields s5 Name = formFields (fst (validateField ?n st)) Name"
    by (simp add: f5 f4 f3 f2 s1_def)
  have email: "formFields s5 Email = formFields (fst (validateField ?e st)) Email"
    using loc_e(2) by (simp add: f5 f4 f3 s2_def)
  have phone: "formFields s5 Phone = formFields (fst (validateField ?p st)) Phone"
    using loc_p(2) by (simp add: f5 f4 s3_def)
  have subject: "formFields s5 Subject = formFields (fst (validateField ?s st)) Subject"
    using loc_s(2) by (simp add: f5 s4_def)
  have message: "formFields s5 Message = formFields (fst (validateField ?m st)) Message"
    using loc_m(2) by (simp add: s5_def)
  show "formFields (fst (validateForm st)) f = formFields (fst (validateField k st)) f"
    if "field_of_key k = Some f" for k f
    using field_of_key_cases [OF that] name email phone subject message
    by (auto simp add: vf)
  show "successMessage (fst (validateForm st)) = successMessage st"
    "submitButton (fst (validateForm st)) = submitButton st"
    "activeElement (fst (validateForm st)) = activeElement st"
    "submitted (fst (validateForm st)) = submitted st"
    "timeouts (fst (validateForm st)) = timeouts st"
    by (simp_all add: vf defs validateField_rest)
qed

text \<open>
  C1. validateForm calls validateField for name, email, phone, subject and message, in
  this order and each of them whatever the earlier ones returned; it returns true exactly
  when every one of these calls returns true, which is when validateField accepts every
  field of the page as it was; and it leaves every field with the error display that
  validateField gives it.
\<close>

theorem validateForm_every_field:
  "validateForm st =
     (case validateField (js ''name'') st of (s1, r1) \<Rightarrow>
      case validateField (js ''email'') s1 of (s2, r2) \<Rightarrow>
      case validateField (js ''phone'') s2 of (s3, r3) \<Rightarrow>
      case validateField (js ''subject'') s3 of (s4, r4) \<Rightarrow>
      case validateField (js ''message'') s4 of (s5, r5) \<Rightarrow>
        (s5, r1 \<and> r2 \<and> r3 \<and> r4 \<and> r5)) \<and>
   (snd (validateForm st) \<longleftrightarrow> (\<forall>k \<in> set Object_keys. snd (validateField k st))) \<and>
   (\<forall>k \<in> set Object_keys. \<forall>f. field_of_key k = Some f \<longrightarrow>
      formFields (fst (validateForm st)) f = formFields (fst (validateField k st)) f)"
  using validateForm_unfold [of st] validateForm_result [of st] validateForm_fields [of _ _ st]
  by blast

section \<open>The sample pages\<close>

lemma rendered_form_element:
  "element (formFields (rendered_form vals) f) =
     Some \<lparr>el_value = vals f, aria_invalid = None, class_error = False, defaultValue = []\<rparr>"
  by (simp add: rendered_form_def)

lemma rendered_form_error:
  "error (formFields (rendered_form vals) f) =
     Some \<lparr>err_textContent = [], err_display = js ''none''\<rparr>"
  by (simp add: rendered_form_def)

lemma passes_Jo: "passes Name (js ''Jo'')"
  by (simp add: passes_def validateName_def trim_def isWhiteSpace_def js_def)

lemma passes_General: "passes Subject (js ''General'')"
  by (simp add: passes_def validateSubject_def trim_def isWhiteSpace_def js_def)

lemma passes_no_phone: "passes Phone []"
  by (simp add: passes_def)

lemma passes_email: "passes Email (js ''jo@x.com'')"
  by (simp add: passes_def validateEmail_def trim_def emailRegex_test_def emailChar_def
      isWhiteSpace_def js_def)

lemma passes_message: "passes Message (js ''Hello there!'')"
  by (simp add: passes_def validateMessage_def trim_def isWhiteSpace_def js_def)

lemma fails_email:
  "\<not> passes Email (js ''not-an-email'')"
  "validateEmail (js ''not-an-email'') = js ''Please enter a valid email address''"
  by (simp_all add: passes_def validateEmail_def trim_def emailRegex_test_def emailChar_def
      isWhiteSpace_def js_def)

lemma fails_message:
  "\<not> passes Message (js ''too short'')"
  "validateMessage (js ''too short'') = js ''Message must be at least 10 characters''"
  by (simp_all add: passes_def validateMessage_def trim_def isWhiteSpace_def js_def)

lemma validateField_rendered:
  assumes "field_of_key k = Some f"
  shows "validateField k (rendered_form vals) =
     (if passes f (vals f) then (clearError k (rendered_form vals), True)
      else (showError k (validator f (vals f)) (rendered_form vals), False))"
  using validateField_Some [OF assms rendered_form_element] by simp

lemma showError_rendered:
  assumes "field_of_key k = Some f"
  shows "formFields (showError k m (rendered_form vals)) f =
     \<lparr>element = Some \<lparr>el_value = vals f, aria_invalid = Some (js ''true''), class_error = True,
                       defaultValue = []\<rparr>,
      error = Some \<lparr>err_textContent = m, err_display = js ''block''\<rparr>\<rparr>"
  by (simp add: showError_def assms rendered_form_def)

lemma clearError_rendered:
  assumes "field_of_key k = Some f"
  shows "formFields (clearError k (rendered_form vals)) f =
     \<lparr>element = Some \<lparr>el_value = vals f, aria_invalid = Some (js ''false''),
                       class_error = False, defaultValue = []\<rparr>,
      error = Some \<lparr>err_textContent = [], err_display = js ''none''\<rparr>\<rparr>"
  by (simp add: clearError_def assms rendered_form_def)

theorem validateForm_every_field_witness:
  "js ''email'' \<in> set Object_keys \<and> js ''message'' \<in> set Object_keys \<and>
   \<not> snd (validateForm (rendered_form invalid_entries)) \<and>
   map_option err_textContent
     (error (formFields (fst (validateForm (rendered_form invalid_entries))) Email)) =
       Some (js ''Please enter a valid email address'') \<and>
   map_option err_textContent
     (error (formFields (fst (validateForm (rendered_form invalid_entries))) Message)) =
       Some (js ''Message must be at least 10 characters'')"
proof -
  let ?P = "rendered_form invalid_entries"
  have keys: "js ''email'' \<in> set Object_keys" "js ''message'' \<in> set Object_keys"
    by (simp_all add: Object_keys_def)
  have e: "validateField (js ''email'') ?P =
      (showError (js ''email'') (js ''Please enter a valid email address'') ?P, False)"
    by (simp add: validateField_rendered [OF field_of_key_simps(2)] fails_email)
  have m: "validateField (js ''message'') ?P =
      (showError (js ''message'') (js ''Message must be at least 10 characters'') ?P, False)"
    by (simp add: validateField_rendered [OF field_of_key_simps(5)] fails_message)
  show ?thesis
    using validateForm_every_field [of ?P] keys
    by (auto simp add: e m field_of_key_simps showError_rendered)
qed

section \<open>The phone field\<close>

lemma trim_eq_Nil: "trim v = [] \<longleftrightarrow> list_all isWhiteSpace v"
proof
  assume "trim v = []"
  then have "\<forall>x \<in> set (dropWhile isWhiteSpace v). isWhiteSpace x"
    by (simp add: trim_def dropWhile_eq_Nil_conv)
  then have "dropWhile isWhiteSpace v = []"
    using hd_dropWhile [of isWhiteSpace v] hd_in_set [of "dropWhile isWhiteSpace v"] by blast
  then show "list_all isWhiteSpace v"
    by (simp add: dropWhile_eq_Nil_conv list_all_iff)
next
  assume "list_all isWhiteSpace v"
  then show "trim v = []"
    by (auto simp: trim_def list_all_iff dest: set_dropWhileD)
qed

lemma phoneChar_isWhiteSpace: "isWhiteSpace c \<Longrightarrow> phoneChar c"
  by (simp add: phoneChar_def)

lemma fails_phone:
  assumes "c \<in> set v" "\<not> phoneChar c"
  shows "\<not> passes Phone v" and "validatePhone v = js ''Please enter a valid phone number''"
proof -
  have "\<not> list_all isWhiteSpace v"
    using assms phoneChar_isWhiteSpace by (auto simp: list_all_iff)
  then have t: "trim v \<noteq> []" "v \<noteq> []"
    by (auto simp: trim_eq_Nil)
  have "\<not> phoneRegex_test v"
    using assms by (auto simp: phoneRegex_test_def list_all_iff)
  with t show "validatePhone v = js ''Please enter a valid phone number''"
    by (simp add: validatePhone_def)
  with t show "\<not> passes Phone v"
    by (simp add: passes_def js_def)
qed

lemma passes_blank_phone:
  "v = [] \<or> list_all isWhiteSpace v \<Longrightarrow> passes Phone v"
  by (auto simp: passes_def trim_eq_Nil)

text \<open>
  C6, as the script has it. When the phone value is empty or consists of white space only,
  validateField clears the error display of phone and returns true. When the value holds a
  code unit that is neither a digit, nor white space in the sense of the regular
  expression (space, tab, line breaks, no-break and the other Unicode spaces), nor one of
  plus, minus and the parentheses, validateField shows ``Please enter a valid phone
  number'' and returns false. The value ``+1 (555) 123-4567'' is accepted, ``call-me'' is
  not.
\<close>

theorem validateField_phone:
  assumes "element (formFields st Phone) = Some el"
  shows
   "(el_value el = [] \<or> list_all isWhiteSpace (el_value el) \<longrightarrow>
       validateField (js ''phone'') st = (clearError (js ''phone'') st, True) \<and>
       (\<forall>slot. error (formFields st Phone) = Some slot \<longrightarrow>
          formFields (clearError (js ''phone'') st) Phone =
            \<lparr>element = Some (el\<lparr>aria_invalid := Some (js ''false''), class_error := False\<rparr>),
             error = Some (slot\<lparr>err_textContent := [], err_display := js ''none''\<rparr>)\<rparr>)) \<and>
    ((\<exists>c \<in> set (el_value el). \<not> phoneChar c) \<longrightarrow>
       validateField (js ''phone'') st =
         (showError (js ''phone'') (js ''Please enter a valid phone number'') st, False) \<and>
       (\<forall>slot. error (formFields st Phone) = Some slot \<longrightarrow>
          formFields (showError (js ''phone'') (js ''Please enter a valid phone number'') st) Phone =
            \<lparr>element = Some (el\<lparr>aria_invalid := Some (js ''true''), class_error := True\<rparr>),
             error = Some (slot\<lparr>err_textContent := js ''Please enter a valid phone number'',
                               err_display := js ''block''\<rparr>)\<rparr>)) \<and>
    validatePhone (js ''+1 (555) 123-4567'') = [] \<and>
    validatePhone (js ''call-me'') = js ''Please enter a valid phone number''"
proof -
  note k = field_of_key_simps(3)
  note vf = validateField_Some [OF k assms]
  have 1: "validateField (js ''phone'') st = (clearError (js ''phone'') st, True)"
    if "el_value el = [] \<or> list_all isWhiteSpace (el_value el)"
    using passes_blank_phone [OF that] by (simp add: vf)
  have 2: "formFields (clearError (js ''phone'') st) Phone =
      \<lparr>element = Some (el\<lparr>aria_invalid := Some (js ''false''), class_error := False\<rparr>),
       error = Some (slot\<lparr>err_textContent := [], err_display := js ''none''\<rparr>)\<rparr>"
    if "error (formFields st Phone) = Some slot" for slot
    using that assms by (simp add: clearError_def k)
  have 3: "validateField (js ''phone'') st =
      (showError (js ''phone'') (js ''Please enter a valid phone number'') st, False)"
    if "\<exists>c \<in> set (el_value el). \<not> phoneChar c"
    using that fails_phone by (auto simp add: vf)
  have 4: "formFields (showError (js ''phone'') m st) Phone =
      \<lparr>element = Some (el\<lparr>aria_invalid := Some (js ''true''), class_error := True\<rparr>),
       error = Some (slot\<lparr>err_textContent := m, err_display := js ''block''\<rparr>)\<rparr>"
    if "error (formFields st Phone) = Some slot" for slot m
    using that assms by (simp add: showError_def k)
  have 5: "validatePhone (js ''+1 (555) 123-4567'') = []"
    by (simp add: validatePhone_def phoneRegex_test_def phoneChar_def isDigit_def
        isWhiteSpace_def js_def)
  have "0x63 \<in> set (js ''call-me'')" "\<not> phoneChar 0x63"
    by (simp_all add: js_def phoneChar_def isDigit_def isWhiteSpace_def)
  then have 6: "validatePhone (js ''call-me'') = js ''Please enter a valid phone number''"
    by (rule fails_phone(2))
  from 1 2 3 4 5 6 show ?thesis
    by blast
qed

theorem validateField_phone_witness:
  "element (formFields (rendered_form valid_entries) Phone) =
     Some \<lparr>el_value = [], aria_invalid = None, class_error = False, defaultValue = []\<rparr> \<and>
   snd (validateField (js ''phone'') (rendered_form valid_entries)) \<and>
   element (formFields (rendered_form (valid_entries(Phone := js ''call-me''))) Phone) =
     Some \<lparr>el_value = js ''call-me'', aria_invalid = None, class_error = False,
           defaultValue = []\<rparr> \<and>
   (\<exists>c \<in> set (js ''call-me''). \<not> phoneChar c) \<and>
   \<not> snd (validateField (js ''phone'') (rendered_form (valid_entries(Phone := js ''call-me''))))"
proof -
  have a: "element (formFields (rendered_form valid_entries) Phone) =
     Some \<lparr>el_value = [], aria_invalid = None, class_error = False, defaultValue = []\<rparr>"
    by (simp add: rendered_form_element)
  have b: "element (formFields (rendered_form (valid_entries(Phone := js ''call-me''))) Phone) =
     Some \<lparr>el_value = js ''call-me'', aria_invalid = None, class_error = False,
           defaultValue = []\<rparr>"
    by (simp add: rendered_form_element)
  have c: "\<exists>c \<in> set (js ''call-me''). \<not> phoneChar c"
    by (simp add: js_def phoneChar_def isDigit_def isWhiteSpace_def)
  show ?thesis
    using validateField_phone [OF a] validateField_phone [OF b] a b c
    by simp
qed

text \<open>
  A tab is none of the characters the specification lists, and the script accepts a phone
  value that holds one.
\<close>

theorem validateField_phone_counterexample:
  "tabbed_phone \<noteq> [] \<and> 0x0009 \<in> set tabbed_phone \<and> \<not> spec_phoneChar 0x0009 \<and>
   validatePhone tabbed_phone = [] \<and>
   snd (validateField (js ''phone'') (rendered_form (valid_entries(Phone := tabbed_phone))))"
proof -
  have v: "validatePhone tabbed_phone = []"
    by (simp add: tabbed_phone_def validatePhone_def phoneRegex_test_def phoneChar_def
        isDigit_def isWhiteSpace_def js_def)
  then have "passes Phone tabbed_phone"
    by (simp add: passes_def)
  then have "snd (validateField (js ''phone'') (rendered_form (valid_entries(Phone := tabbed_phone))))"
    by (simp add: validateField_rendered [OF field_of_key_simps(3)])
  with v show ?thesis
    by (simp add: tabbed_phone_def spec_phoneChar_def isDigit_def)
qed

section \<open>Submitting an invalid form\<close>

lemma Object_keys_fields:
  "k \<in> set Object_keys \<Longrightarrow> \<exists>f. field_of_key k = Some f"
  by (auto simp: Object_keys_def field_of_key_simps)

lemma hideSuccess_rest:
  "formFields (hideSuccess st) = formFields st"
  "submitButton (hideSuccess st) = submitButton st"
  "activeElement (hideSuccess st) = activeElement st"
  "submitted (hideSuccess st) = submitted st"
  "timeouts (hideSuccess st) = timeouts st"
  by (simp_all add: hideSuccess_def split: option.splits)

lemma validateForm_hideSuccess:
  "snd (validateForm (hideSuccess st)) = snd (validateForm st)"
proof -
  have "snd (validateField k (hideSuccess st)) = snd (validateField k st)"
    if "k \<in> set Object_keys" for k
  proof -
    from that obtain f where "field_of_key k = Some f"
      using Object_keys_fields by blast
    then show ?thesis
      by (rule validateField_local(1)) (simp add: hideSuccess_rest)
  qed
  then show ?thesis
    by (simp add: validateForm_result)
qed

lemma marked_after_validateForm:
  assumes k: "field_of_key k = Some f"
    and el: "element (formFields st f) = Some el"
    and slot: "error (formFields st f) = Some slot"
  shows "marked_invalid (fst (validateForm st)) k \<longleftrightarrow> \<not> snd (validateField k st)"
proof -
  have neq: "js ''false'' \<noteq> js ''true''"
    by (simp add: js_def)
  have "formFields (fst (validateForm st)) f = formFields (fst (validateField k st)) f"
    using k by (rule validateForm_fields)
  then show ?thesis
    using el slot neq
    by (simp add: marked_invalid_def k validateField_Some [OF k el] showError_def clearError_def)
qed

lemma focusFirstError_rest:
  "formFields (focusFirstError st) = formFields st"
  "successMessage (focusFirstError st) = successMessage st"
  "submitButton (focusFirstError st) = submitButton st"
  "submitted (focusFirstError st) = submitted st"
  "timeouts (focusFirstError st) = timeouts st"
  by (simp_all add: focusFirstError_def split: option.splits)

lemma focusFirstError_none:
  "\<forall>k \<in> set Object_keys. \<not> marked_invalid st k \<Longrightarrow> focusFirstError st = st"
  by (simp add: focusFirstError_def find_None_iff [THEN iffD2])

lemma focusFirstError_first:
  assumes "i < length Object_keys" "marked_invalid st (Object_keys ! i)"
    and "\<forall>j < i. \<not> marked_invalid st (Object_keys ! j)"
  shows "\<exists>f. field_of_key (Object_keys ! i) = Some f \<and>
    activeElement (focusFirstError st) = Some (FieldInput f)"
proof -
  have "List.find (marked_invalid st) Object_keys = Some (Object_keys ! i)"
    using assms by (auto simp: find_Some_iff)
  then show ?thesis
    using assms(2)
    by (auto simp add: focusFirstError_def marked_invalid_def split: option.splits)
qed

text \<open>
  C4. When validateForm returns false, the handler returns without calling the
  submission collaborator and without touching the submit button, and the focus goes to
  the first field, in the order name, email, phone, subject, message, whose input carries
  the invalid marker after the validation (it stays where it was when no field carries
  one). On a form whose fields all have their input and their error slot, the fields that
  carry the marker are exactly those validateField rejects.
\<close>

theorem handleSubmit_invalid_focus:
  assumes "\<not> snd (validateForm st)"
  shows
   "snd (handleSubmit st) = Returned \<and>
    submitted (fst (handleSubmit st)) = submitted st \<and>
    submitButton (fst (handleSubmit st)) = submitButton st \<and>
    ((\<forall>k \<in> set Object_keys. \<not> marked_invalid (fst (validateForm (hideSuccess st))) k) \<longrightarrow>
       activeElement (fst (handleSubmit st)) = activeElement st) \<and>
    (\<forall>i < length Object_keys.
       marked_invalid (fst (validateForm (hideSuccess st))) (Object_keys ! i) \<and>
       (\<forall>j < i. \<not> marked_invalid (fst (validateForm (hideSuccess st))) (Object_keys ! j)) \<longrightarrow>
         (\<exists>f. field_of_key (Object_keys ! i) = Some f \<and>
              activeElement (fst (handleSubmit st)) = Some (FieldInput f))) \<and>
    ((\<forall>f. element (formFields st f) \<noteq> None \<and> error (formFields st f) \<noteq> None) \<longrightarrow>
       (\<forall>k \<in> set Object_keys.
          marked_invalid (fst (validateForm (hideSuccess st))) k \<longleftrightarrow>
          \<not> snd (validateField k st)))"
proof -
  let ?h = "hideSuccess st"
  let ?v = "fst (validateForm ?h)"
  have inv: "\<not> snd (validateForm ?h)"
    using assms by (simp add: validateForm_hideSuccess)
  then have hs: "handleSubmit st = (focusFirstError ?v, Returned)"
    by (simp add: handleSubmit_def handleSubmit_validate_def case_prod_beta)
  have 1: "snd (handleSubmit st) = Returned"
    by (simp add: hs)
  have 2: "submitted (fst (handleSubmit st)) = submitted st"
    by (simp add: hs focusFirstError_rest validateForm_rest hideSuccess_rest)
  have 3: "submitButton (fst (handleSubmit st)) = submitButton st"
    by (simp add: hs focusFirstError_rest validateForm_rest hideSuccess_rest)
  have 4: "activeElement (fst (handleSubmit st)) = activeElement st"
    if "\<forall>k \<in> set Object_keys. \<not> marked_invalid ?v k"
    using focusFirstError_none [OF that] by (simp add: hs validateForm_rest hideSuccess_rest)
  have 5: "\<exists>f. field_of_key (Object_keys ! i) = Some f \<and>
      activeElement (fst (handleSubmit st)) = Some (FieldInput f)"
    if "i < length Object_keys" "marked_invalid ?v (Object_keys ! i)"
      "\<forall>j < i. \<not> marked_invalid ?v (Object_keys ! j)" for i
    using focusFirstError_first [OF that] by (simp add: hs)
  have 6: "marked_invalid ?v k \<longleftrightarrow> \<not> snd (validateField k st)"
    if all: "\<forall>f. element (formFields st f) \<noteq> None \<and> error (formFields st f) \<noteq> None"
      and k: "k \<in> set Object_keys" for k
  proof -
    from k obtain f where f: "field_of_key k = Some f"
      using Object_keys_fields by blast
    from all have "element (formFields st f) \<noteq> None" "error (formFields st f) \<noteq> None"
      by simp_all
    then obtain el slot where
      "element (formFields ?h f) = Some el" "error (formFields ?h f) = Some slot"
      by (auto simp: hideSuccess_rest)
    then have "marked_invalid ?v k \<longleftrightarrow> \<not> snd (validateField k ?h)"
      by (rule marked_after_validateForm [OF f])
    moreover have "snd (validateField k ?h) = snd (validateField k st)"
      using f by (rule validateField_local(1)) (simp add: hideSuccess_rest)
    ultimately show ?thesis
      by simp
  qed
  from 1 2 3 4 5 6 show ?thesis
    by blast
qed

theorem handleSubmit_invalid_focus_witness:
  "\<not> snd (validateForm (rendered_form invalid_entries)) \<and>
   snd (handleSubmit (rendered_form invalid_entries)) = Returned \<and>
   submitted (fst (handleSubmit (rendered_form invalid_entries))) = [] \<and>
   activeElement (fst (handleSubmit (rendered_form invalid_entries))) = Some (FieldInput Email)"
proof -
  let ?P = "rendered_form invalid_entries"
  let ?v = "fst (validateForm (hideSuccess ?P))"
  have n: "snd (validateField (js ''name'') ?P)"
    by (simp add: validateField_rendered [OF field_of_key_simps(1)] passes_Jo)
  have e: "\<not> snd (validateField (js ''email'') ?P)"
    by (simp add: validateField_rendered [OF field_of_key_simps(2)] fails_email)
  have inv: "\<not> snd (validateForm ?P)"
    using e by (auto simp add: validateForm_result Object_keys_def)
  note T = handleSubmit_invalid_focus [OF inv]
  have all: "\<forall>f. element (formFields ?P f) \<noteq> None \<and> error (formFields ?P f) \<noteq> None"
    by (simp add: rendered_form_element rendered_form_error)
  with T have m: "\<forall>k \<in> set Object_keys. marked_invalid ?v k \<longleftrightarrow> \<not> snd (validateField k ?P)"
    by blast
  have m0: "\<not> marked_invalid ?v (Object_keys ! 0)" and m1: "marked_invalid ?v (Object_keys ! 1)"
    using m n e by (simp_all add: Object_keys_def)
  from T have "\<forall>i < length Object_keys.
       marked_invalid ?v (Object_keys ! i) \<and> (\<forall>j < i. \<not> marked_invalid ?v (Object_keys ! j)) \<longrightarrow>
         (\<exists>f. field_of_key (Object_keys ! i) = Some f \<and>
              activeElement (fst (handleSubmit ?P)) = Some (FieldInput f))"
    by blast
  note first = this [rule_format, of 1]
  have "\<exists>f. field_of_key (Object_keys ! 1) = Some f \<and>
      activeElement (fst (handleSubmit ?P)) = Some (FieldInput f)"
  proof (rule first)
    show "1 < length Object_keys"
      by (simp add: Object_keys_def)
    show "marked_invalid ?v (Object_keys ! 1) \<and>
      (\<forall>j < 1. \<not> marked_invalid ?v (Object_keys ! j))"
      using m0 m1 by simp
  qed
  then have focus: "activeElement (fst (handleSubmit ?P)) = Some (FieldInput Email)"
    by (simp add: Object_keys_def field_of_key_simps)
  have "submitted ?P = []"
    by (simp add: rendered_form_def)
  with T inv focus show ?thesis
    by simp
qed

section \<open>Submitting a valid form\<close>

lemma handleSubmit_Awaiting:
  assumes "handleSubmit st = (st1, Awaiting data l)"
  shows "snd (validateForm st)"
    and "\<exists>b. submitButton st = Some b \<and> btn_textContent b = l \<and>
           submitButton st1 = Some (b\<lparr>disabled := True, btn_textContent := js ''Sending...''\<rparr>)"
    and "submitted st1 = submitted st @ [data]"
    and "successMessage st1 = successMessage (hideSuccess st)"
    and "timeouts st1 = timeouts st"
    and "formFields st1 = formFields (fst (validateForm (hideSuccess st)))"
proof -
  let ?v = "fst (validateForm (hideSuccess st))"
  have ok: "snd (validateForm (hideSuccess st))"
  proof (rule ccontr)
    assume "\<not> snd (validateForm (hideSuccess st))"
    then have "snd (handleSubmit st) = Returned"
      by (simp add: handleSubmit_def handleSubmit_validate_def case_prod_beta)
    with assms show False
      by simp
  qed
  then show "snd (validateForm st)"
    by (simp add: validateForm_hideSuccess)
  have hs: "handleSubmit st =
      (case submitButton ?v of
         None \<Rightarrow> (?v, Threw)
       | Some b \<Rightarrow>
           (?v\<lparr>submitButton := Some (b\<lparr>disabled := True, btn_textContent := js ''Sending...''\<rparr>),
               submitted := submitted ?v @ [collect_data ?v]\<rparr>,
            Awaiting (collect_data ?v) (btn_textContent b)))"
    using ok by (simp add: handleSubmit_def handleSubmit_validate_def case_prod_beta Let_def)
  have "submitButton ?v \<noteq> None"
  proof
    assume "submitButton ?v = None"
    with hs have "snd (handleSubmit st) = Threw"
      by simp
    with assms show False
      by simp
  qed
  then obtain b where b: "submitButton ?v = Some b"
    by blast
  have st1: "st1 = fst (handleSubmit st)" and out: "snd (handleSubmit st) = Awaiting data l"
    using assms by simp_all
  have f: "fst (handleSubmit st) =
      ?v\<lparr>submitButton := Some (b\<lparr>disabled := True, btn_textContent := js ''Sending...''\<rparr>),
          submitted := submitted ?v @ [collect_data ?v]\<rparr>"
    and s: "snd (handleSubmit st) = Awaiting (collect_data ?v) (btn_textContent b)"
    using hs b by simp_all
  from s out have dl: "data = collect_data ?v" "l = btn_textContent b"
    by simp_all
  from b have "submitButton st = Some b"
    by (simp add: validateForm_rest hideSuccess_rest)
  then show "\<exists>b. submitButton st = Some b \<and> btn_textContent b = l \<and>
           submitButton st1 = Some (b\<lparr>disabled := True, btn_textContent := js ''Sending...''\<rparr>)"
    by (simp add: st1 f dl)
  show "submitted st1 = submitted st @ [data]"
    by (simp add: st1 f dl validateForm_rest hideSuccess_rest)
  show "successMessage st1 = successMessage (hideSuccess st)"
    by (simp add: st1 f validateForm_rest)
  show "timeouts st1 = timeouts st"
    by (simp add: st1 f validateForm_rest hideSuccess_rest)
  show "formFields st1 = formFields ?v"
    by (simp add: st1 f)
qed

lemma handleSubmit_valid:
  assumes "snd (validateForm st)" "submitButton st = Some b"
  shows "snd (handleSubmit st) =
      Awaiting (collect_data (fst (validateForm (hideSuccess st)))) (btn_textContent b)"
  using assms
  by (simp add: handleSubmit_def handleSubmit_validate_def case_prod_beta Let_def
      validateForm_hideSuccess validateForm_rest hideSuccess_rest)

lemma hideSuccess_hidden:
  "successMessage (hideSuccess st) = Some m \<Longrightarrow> suc_display m = js ''none''"
  by (auto simp add: hideSuccess_def split: option.splits)

lemma restore_button_rest:
  "formFields (restore_button l st) = formFields st"
  "successMessage (restore_button l st) = successMessage st"
  "activeElement (restore_button l st) = activeElement st"
  "submitted (restore_button l st) = submitted st"
  "timeouts (restore_button l st) = timeouts st"
  "submitButton (restore_button l st) =
     map_option (\<lambda>b. b\<lparr>disabled := False, btn_textContent := l\<rparr>) (submitButton st)"
  by (simp_all add: restore_button_def)

lemma showError_values:
  "map_option el_value (element (formFields (showError k m st) f)) =
   map_option el_value (element (formFields st f))"
  by (cases "element (formFields st f)")
    (auto simp add: showError_def split: option.splits)

lemma valid_sample:
  "snd (validateForm (rendered_form valid_entries))"
  by (simp add: validateForm_result Object_keys_def
      validateField_rendered [OF field_of_key_simps(1)]
      validateField_rendered [OF field_of_key_simps(2)]
      validateField_rendered [OF field_of_key_simps(3)]
      validateField_rendered [OF field_of_key_simps(4)]
      validateField_rendered [OF field_of_key_simps(5)]
      passes_Jo passes_email passes_no_phone passes_General passes_message)

lemma sending_page_Awaiting:
  "handleSubmit (rendered_form valid_entries) =
     (sending_page,
      Awaiting (collect_data (fst (validateForm (hideSuccess (rendered_form valid_entries)))))
        (js ''Send Message''))"
proof -
  have "submitButton (rendered_form valid_entries) =
      Some \<lparr>disabled = False, btn_textContent = js ''Send Message''\<rparr>"
    by (simp add: rendered_form_def)
  from handleSubmit_valid [OF valid_sample this] show ?thesis
    by (simp add: sending_page_def prod_eq_iff)
qed

lemma sending_page_facts:
  "submitButton sending_page = Some \<lparr>disabled = True, btn_textContent = js ''Sending...''\<rparr>"
  "length (submitted sending_page) = 1"
  "timeouts sending_page = []"
  "successMessage sending_page = Some \<lparr>suc_display = js ''none'', suc_role = None\<rparr>"
  using handleSubmit_Awaiting(2-5) [OF sending_page_Awaiting]
  by (simp_all add: rendered_form_def hideSuccess_def)

lemma valid_entries_pass: "passes f (valid_entries f)"
  by (cases f) (simp_all add: passes_Jo passes_email passes_no_phone passes_General passes_message)

lemma sending_page_field:
  assumes k: "field_of_key k = Some f"
  shows "formFields sending_page f =
     \<lparr>element = Some \<lparr>el_value = valid_entries f, aria_invalid = Some (js ''false''),
                       class_error = False, defaultValue = []\<rparr>,
      error = Some \<lparr>err_textContent = [], err_display = js ''none''\<rparr>\<rparr>"
proof -
  let ?P = "rendered_form valid_entries"
  have "formFields sending_page f = formFields (fst (validateForm (hideSuccess ?P))) f"
    using handleSubmit_Awaiting(6) [OF sending_page_Awaiting] by simp
  also have "\<dots> = formFields (fst (validateField k (hideSuccess ?P))) f"
    using k by (rule validateForm_fields)
  also have "\<dots> = formFields (fst (validateField k ?P)) f"
    using k by (rule validateField_local(2)) (simp add: hideSuccess_rest)
  also have "\<dots> =
     \<lparr>element = Some \<lparr>el_value = valid_entries f, aria_invalid = Some (js ''false''),
                       class_error = False, defaultValue = []\<rparr>,
      error = Some \<lparr>err_textContent = [], err_display = js ''none''\<rparr>\<rparr>"
    by (simp add: validateField_rendered [OF k] valid_entries_pass clearError_rendered [OF k])
  finally show ?thesis .
qed

section \<open>A failed submission\<close>

text \<open>
  The collaborator of the script never rejects; the \<^verbatim>\<open>catch\<close> block is reached only with
  a collaborator put in its place, whose outcome is a parameter here.
\<close>

lemma simulateFormSubmission_resolves: "simulateFormSubmission data \<noteq> Rejected err"
  by (simp add: simulateFormSubmission_def)

text \<open>
  C2. When the collaborator rejects, the handler writes the one message ``Failed to send
  message. Please try again or contact us directly.'' into the error slot of the message
  field and leaves the error display of the other fields alone; it enables the submit
  button again in the same run and gives it the label captured before the call; it
  leaves the success indicator, all field values, the list of collaborator calls and the
  timers as they are, and the handler is finished, so nothing is retried. The result is
  the same for every error value. For an attempt started on a page \<open>st0\<close>, the label is
  the one the button had on \<open>st0\<close>, the indicator is hidden, and the collaborator has been
  called once.
\<close>

theorem handleSubmit_rejected_effect:
  "(\<forall>slot. error (formFields st Message) = Some slot \<longrightarrow>
      error (formFields (handleSubmit_rejected err l st) Message) =
        Some (slot\<lparr>err_textContent :=
                      js ''Failed to send message. Please try again or contact us directly.'',
                    err_display := js ''block''\<rparr>)) \<and>
   (\<forall>f. f \<noteq> Message \<longrightarrow> formFields (handleSubmit_rejected err l st) f = formFields st f) \<and>
   (\<forall>f. map_option el_value (element (formFields (handleSubmit_rejected err l st) f)) =
        map_option el_value (element (formFields st f))) \<and>
   submitButton (handleSubmit_rejected err l st) =
     map_option (\<lambda>b. b\<lparr>disabled := False, btn_textContent := l\<rparr>) (submitButton st) \<and>
   successMessage (handleSubmit_rejected err l st) = successMessage st \<and>
   submitted (handleSubmit_rejected err l st) = submitted st \<and>
   timeouts (handleSubmit_rejected err l st) = timeouts st \<and>
   handleSubmit_rejected err' l st = handleSubmit_rejected err l st \<and>
   step Proceed \<lparr>view = st, running = Some (Catch err l), suspended = others\<rparr> =
     Some \<lparr>view = handleSubmit_rejected err l st, running = None, suspended = others\<rparr> \<and>
   (\<forall>st0 data. handleSubmit st0 = (st, Awaiting data l) \<longrightarrow>
      (\<exists>b. submitButton st0 = Some b \<and>
           submitButton (handleSubmit_rejected err l st) = Some (b\<lparr>disabled := False\<rparr>)) \<and>
      (\<forall>m. successMessage (handleSubmit_rejected err l st) = Some m \<longrightarrow>
           suc_display m = js ''none'') \<and>
      submitted (handleSubmit_rejected err l st) = submitted st0 @ [data])"
proof -
  let ?r = "handleSubmit_rejected err l st"
  let ?msg = "js ''Failed to send message. Please try again or contact us directly.''"
  note k = field_of_key_simps(5)
  have r: "?r = restore_button l (showError (js ''message'') ?msg st)"
    by (simp add: handleSubmit_rejected_def)
  have 1: "error (formFields ?r Message) =
      Some (slot\<lparr>err_textContent := ?msg, err_display := js ''block''\<rparr>)"
    if "error (formFields st Message) = Some slot" for slot
    using that by (simp add: r restore_button_rest showError_def k)
  have 2: "formFields ?r f = formFields st f" if "f \<noteq> Message" for f
    using that by (simp add: r restore_button_rest showError_frame k)
  have 3: "map_option el_value (element (formFields ?r f)) =
      map_option el_value (element (formFields st f))" for f
    by (simp add: r restore_button_rest showError_values)
  have 4: "submitButton ?r =
      map_option (\<lambda>b. b\<lparr>disabled := False, btn_textContent := l\<rparr>) (submitButton st)"
    by (simp add: r restore_button_rest showError_rest)
  have 5: "successMessage ?r = successMessage st" "submitted ?r = submitted st"
    "timeouts ?r = timeouts st"
    by (simp_all add: r restore_button_rest showError_rest)
  have 6: "handleSubmit_rejected err' l st = ?r"
    by (simp add: handleSubmit_rejected_def)
  have 7: "step Proceed \<lparr>view = st, running = Some (Catch err l), suspended = others\<rparr> =
      Some \<lparr>view = ?r, running = None, suspended = others\<rparr>"
    by simp
  have 8: "(\<exists>b. submitButton st0 = Some b \<and> submitButton ?r = Some (b\<lparr>disabled := False\<rparr>)) \<and>
      (\<forall>m. successMessage ?r = Some m \<longrightarrow> suc_display m = js ''none'') \<and>
      submitted ?r = submitted st0 @ [data]"
    if a: "handleSubmit st0 = (st, Awaiting data l)" for st0 data
  proof -
    from handleSubmit_Awaiting(2) [OF a] obtain b where
      b: "submitButton st0 = Some b" "btn_textContent b = l"
        "submitButton st = Some (b\<lparr>disabled := True, btn_textContent := js ''Sending...''\<rparr>)"
      by blast
    have "b\<lparr>disabled := False, btn_textContent := btn_textContent b\<rparr> = b\<lparr>disabled := False\<rparr>"
      by simp
    with b have "submitButton ?r = Some (b\<lparr>disabled := False\<rparr>)"
      by (simp add: 4)
    moreover have "suc_display m = js ''none''" if "successMessage ?r = Some m" for m
      using that handleSubmit_Awaiting(4) [OF a] hideSuccess_hidden [of st0 m]
      by (simp add: 5)
    moreover have "submitted ?r = submitted st0 @ [data]"
      using handleSubmit_Awaiting(3) [OF a] by (simp add: 5)
    ultimately show ?thesis
      using b(1) by blast
  qed
  from 1 2 3 4 5 6 7 8 show ?thesis
    by (intro conjI allI impI) blast+
qed

theorem handleSubmit_rejected_effect_witness:
  "error (formFields sending_page Message) =
     Some \<lparr>err_textContent = [], err_display = js ''none''\<rparr> \<and>
   handleSubmit (rendered_form valid_entries) =
     (sending_page,
      Awaiting (collect_data (fst (validateForm (hideSuccess (rendered_form valid_entries)))))
        (js ''Send Message'')) \<and>
   error (formFields (handleSubmit_rejected () (js ''Send Message'') sending_page) Message) =
     Some \<lparr>err_textContent =
             js ''Failed to send message. Please try again or contact us directly.'',
           err_display = js ''block''\<rparr> \<and>
   submitButton (handleSubmit_rejected () (js ''Send Message'') sending_page) =
     Some \<lparr>disabled = False, btn_textContent = js ''Send Message''\<rparr> \<and>
   map_option el_value
     (element (formFields (handleSubmit_rejected () (js ''Send Message'') sending_page) Name)) =
     Some (js ''Jo'') \<and>
   Name \<noteq> Message \<and>
   formFields (handleSubmit_rejected () (js ''Send Message'') sending_page) Name =
     formFields sending_page Name"
proof -
  have slot: "error (formFields sending_page Message) =
      Some \<lparr>err_textContent = [], err_display = js ''none''\<rparr>"
    by (simp add: sending_page_field [OF field_of_key_simps(5)])
  have name: "map_option el_value (element (formFields sending_page Name)) = Some (js ''Jo'')"
    by (simp add: sending_page_field [OF field_of_key_simps(1)])
  have button: "submitButton (rendered_form valid_entries) =
      Some \<lparr>disabled = False, btn_textContent = js ''Send Message''\<rparr>"
    by (simp add: rendered_form_def)
  note T = handleSubmit_rejected_effect [of sending_page "()" "js ''Send Message''" "()"]
  from T slot have 1:
    "error (formFields (handleSubmit_rejected () (js ''Send Message'') sending_page) Message) =
     Some \<lparr>err_textContent =
             js ''Failed to send message. Please try again or contact us directly.'',
           err_display = js ''block''\<rparr>"
    by simp
  from T have "\<forall>st0 data.
      handleSubmit st0 = (sending_page, Awaiting data (js ''Send Message'')) \<longrightarrow>
      (\<exists>b. submitButton st0 = Some b \<and>
           submitButton (handleSubmit_rejected () (js ''Send Message'') sending_page) =
             Some (b\<lparr>disabled := False\<rparr>))"
    by blast
  from this [rule_format, OF sending_page_Awaiting] button have 2:
    "submitButton (handleSubmit_rejected () (js ''Send Message'') sending_page) =
     Some \<lparr>disabled = False, btn_textContent = js ''Send Message''\<rparr>"
    by auto
  from T name have 3: "map_option el_value
     (element (formFields (handleSubmit_rejected () (js ''Send Message'') sending_page) Name)) =
     Some (js ''Jo'')"
    by simp
  from T have 4: "formFields (handleSubmit_rejected () (js ''Send Message'') sending_page) Name =
     formFields sending_page Name"
    by simp
  from slot sending_page_Awaiting 1 2 3 4 show ?thesis
    by simp
qed

section \<open>The continuations of the handler\<close>

lemma handleSubmit_fulfilled_rest:
  "submitButton (handleSubmit_fulfilled l st) = submitButton st"
  "timeouts (handleSubmit_fulfilled l st) = timeouts st @ [(3000, l)]"
  "formFields (handleSubmit_fulfilled l st) = formFields st"
  "submitted (handleSubmit_fulfilled l st) = submitted st"
  by (simp_all add: handleSubmit_fulfilled_def showSuccess_def Let_def split: option.splits)

section \<open>A second submit while sending\<close>

text \<open>
  C5, as the script has it. When the handler reaches its \<^verbatim>\<open>await\<close>, the collaborator has
  been called once for this attempt and the submit button is disabled and labelled
  ``Sending...''; revalidating a field does not enable it. So a submit request made
  through the submit control starts nothing: the handler does not run, and the
  collaborator is not called again. The handler itself does not look at the button.
\<close>

theorem sending_disables_submit_control:
  assumes "handleSubmit st = (st1, Awaiting data l)"
  shows
   "(\<exists>b. submitButton st = Some b \<and>
         submitButton st1 = Some (b\<lparr>disabled := True, btn_textContent := js ''Sending...''\<rparr>)) \<and>
    submitted st1 = submitted st @ [data] \<and>
    submit_control st1 = None \<and>
    (\<forall>k. submitButton (fst (validateField k st1)) = submitButton st1 \<and>
         submit_control (fst (validateField k st1)) = None)"
proof -
  from handleSubmit_Awaiting(2) [OF assms] obtain b where
    b: "submitButton st = Some b"
      "submitButton st1 = Some (b\<lparr>disabled := True, btn_textContent := js ''Sending...''\<rparr>)"
    by blast
  have "submit_control s = None" if "submitButton s = submitButton st1" for s
    using that b(2) by (simp add: submit_control_def)
  then show ?thesis
    using b handleSubmit_Awaiting(3) [OF assms]
    by (simp add: validateField_rest)
qed

theorem sending_disables_submit_control_witness:
  "handleSubmit (rendered_form valid_entries) =
     (sending_page,
      Awaiting (collect_data (fst (validateForm (hideSuccess (rendered_form valid_entries)))))
        (js ''Send Message'')) \<and>
   submitButton sending_page = Some \<lparr>disabled = True, btn_textContent = js ''Sending...''\<rparr> \<and>
   length (submitted sending_page) = 1 \<and>
   submit_control sending_page = None \<and>
   submit_control (fst (validateField (js ''email'') sending_page)) = None"
proof -
  note T = sending_disables_submit_control [OF sending_page_Awaiting]
  from T have "submit_control sending_page = None"
    and "submit_control (fst (validateField (js ''email'') sending_page)) = None"
    by blast+
  with sending_page_Awaiting show ?thesis
    by (simp add: sending_page_facts)
qed

text \<open>
  The handler, run a second time while the first attempt is suspended and the button is
  disabled, calls the collaborator again.
\<close>

theorem second_handleSubmit_counterexample:
  "submitButton sending_page = Some \<lparr>disabled = True, btn_textContent = js ''Sending...''\<rparr> \<and>
   length (submitted sending_page) = 1 \<and>
   snd (handleSubmit sending_page) =
     Awaiting (collect_data (fst (validateForm (hideSuccess sending_page)))) (js ''Sending...'') \<and>
   length (submitted (fst (handleSubmit sending_page))) = 2"
proof -
  have el: "element (formFields sending_page f) =
      Some \<lparr>el_value = valid_entries f, aria_invalid = Some (js ''false''),
            class_error = False, defaultValue = []\<rparr>" if "field_of_key k = Some f" for k f
    by (simp add: sending_page_field [OF that])
  have ok: "snd (validateField k sending_page)" if "k \<in> set Object_keys" for k
  proof -
    from that obtain f where f: "field_of_key k = Some f"
      using Object_keys_fields by blast
    show ?thesis
      by (simp add: validateField_Some [OF f el [OF f]] valid_entries_pass)
  qed
  then have v: "snd (validateForm sending_page)"
    by (simp add: validateForm_result)
  from handleSubmit_valid [OF v sending_page_facts(1)]
  have out: "snd (handleSubmit sending_page) =
      Awaiting (collect_data (fst (validateForm (hideSuccess sending_page)))) (js ''Sending...'')"
    by simp
  then have "handleSubmit sending_page =
      (fst (handleSubmit sending_page),
       Awaiting (collect_data (fst (validateForm (hideSuccess sending_page)))) (js ''Sending...''))"
    by (simp add: prod_eq_iff)
  from handleSubmit_Awaiting(3) [OF this]
  have "length (submitted (fst (handleSubmit sending_page))) = 2"
    by (simp add: sending_page_facts)
  with out show ?thesis
    by (simp add: sending_page_facts)
qed

section \<open>The parts of the handler\<close>

lemma handleSubmit_validate_cases:
  fixes st
  defines "v \<equiv> fst (validateForm st)"
  shows
   "(\<not> snd (validateForm st) \<and> handleSubmit_validate st = (focusFirstError v, Returned)) \<or>
    (snd (validateForm st) \<and> submitButton st = None \<and> handleSubmit_validate st = (v, Threw)) \<or>
    (snd (validateForm st) \<and>
      (\<exists>b. submitButton st = Some b \<and>
         handleSubmit_validate st =
           (v\<lparr>submitButton := Some (b\<lparr>disabled := True, btn_textContent := js ''Sending...''\<rparr>),
              submitted := submitted v @ [collect_data v]\<rparr>,
            Awaiting (collect_data v) (btn_textContent b))))"
proof (cases "snd (validateForm st)")
  case False
  then show ?thesis
    by (simp add: handleSubmit_validate_def case_prod_beta v_def)
next
  case True
  have b: "submitButton v = submitButton st"
    by (simp add: v_def validateForm_rest)
  show ?thesis
  proof (cases "submitButton st")
    case None
    with True b show ?thesis
      by (simp add: handleSubmit_validate_def case_prod_beta Let_def v_def)
  next
    case (Some a)
    with True b show ?thesis
      by (simp add: handleSubmit_validate_def case_prod_beta Let_def v_def)
  qed
qed

lemma handleSubmit_validate_timeouts:
  "timeouts (fst (handleSubmit_validate st)) = timeouts st"
  using handleSubmit_validate_cases [of st]
  by (auto simp add: focusFirstError_rest validateForm_rest)

lemma handleSubmit_validate_button:
  "snd (handleSubmit_validate st) = Returned \<or> snd (handleSubmit_validate st) = Threw \<Longrightarrow>
   submitButton (fst (handleSubmit_validate st)) = submitButton st"
  using handleSubmit_validate_cases [of st]
  by (auto simp add: focusFirstError_rest validateForm_rest)

lemma fold_clearError_rest:
  "successMessage (fold clearError ks s) = successMessage s"
  "submitButton (fold clearError ks s) = submitButton s"
  "timeouts (fold clearError ks s) = timeouts s"
  "submitted (fold clearError ks s) = submitted s"
  by (induction ks arbitrary: s) (simp_all add: clearError_rest)

lemma resetForm_rest:
  "submitButton (resetForm st) = submitButton st"
  "timeouts (resetForm st) = timeouts st"
  "submitted (resetForm st) = submitted st"
  by (simp_all add: resetForm_def hideSuccess_rest fold_clearError_rest form_reset_def)

lemma resetForm_hidden:
  "successMessage (resetForm st) = Some m \<Longrightarrow> suc_display m = js ''none''"
  unfolding resetForm_def by (rule hideSuccess_hidden)

lemma field_has_key: "\<exists>k. field_of_key k = Some f"
  by (cases f) (blast intro: field_of_key_simps)+

lemma fold_clearError_field:
  assumes "field_of_key k = Some f"
  shows "formFields (fold clearError Object_keys s) f = formFields (clearError k s) f"
proof -
  let ?n = "js ''name''" and ?e = "js ''email''" and ?p = "js ''phone''"
    and ?s = "js ''subject''" and ?m = "js ''message''"
  define s1 where "s1 = clearError ?n s"
  define s2 where "s2 = clearError ?e s1"
  define s3 where "s3 = clearError ?p s2"
  define s4 where "s4 = clearError ?s s3"
  define s5 where "s5 = clearError ?m s4"
  note defs = s1_def s2_def s3_def s4_def s5_def
  have all: "fold clearError Object_keys s = s5"
    by (simp add: Object_keys_def defs)
  have f1: "formFields s1 g = formFields s g" if "g \<noteq> Name" for g
    unfolding s1_def using that by (simp add: clearError_frame field_of_key_simps)
  have f2: "formFields s2 g = formFields s1 g" if "g \<noteq> Email" for g
    unfolding s2_def using that by (simp add: clearError_frame field_of_key_simps)
  have f3: "formFields s3 g = formFields s2 g" if "g \<noteq> Phone" for g
    unfolding s3_def using that by (simp add: clearError_frame field_of_key_simps)
  have f4: "formFields s4 g = formFields s3 g" if "g \<noteq> Subject" for g
    unfolding s4_def using that by (simp add: clearError_frame field_of_key_simps)
  have f5: "formFields s5 g = formFields s4 g" if "g \<noteq> Message" for g
    unfolding s5_def using that by (simp add: clearError_frame field_of_key_simps)
  have name: "formFields s5 Name = formFields (clearError ?n s) Name"
    by (simp add: f5 f4 f3 f2 s1_def)
  have email: "formFields s5 Email = formFields (clearError ?e s) Email"
    using clearError_local [OF field_of_key_simps(2), of s1 s] 
    by (simp add: f5 f4 f3 f1 s2_def)
  have phone: "formFields s5 Phone = formFields (clearError ?p s) Phone"
    using clearError_local [OF field_of_key_simps(3), of s2 s]
    by (simp add: f5 f4 f2 f1 s3_def)
  have subject: "formFields s5 Subject = formFields (clearError ?s s) Subject"
    using clearError_local [OF field_of_key_simps(4), of s3 s]
    by (simp add: f5 f3 f2 f1 s4_def)
  have message: "formFields s5 Message = formFields (clearError ?m s) Message"
    using clearError_local [OF field_of_key_simps(5), of s4 s]
    by (simp add: f4 f3 f2 f1 s5_def)
  show ?thesis
    using field_of_key_cases [OF assms] name email phone subject message
    by (auto simp add: all)
qed

lemma resetForm_field:
  "formFields (resetForm st) f =
     (case error (formFields st f) of
        None \<Rightarrow>
          \<lparr>element = map_option (\<lambda>el. el\<lparr>el_value := defaultValue el\<rparr>) (element (formFields st f)),
           error = None\<rparr>
      | Some slot \<Rightarrow>
          \<lparr>element = map_option (\<lambda>el. el\<lparr>el_value := defaultValue el,
                                          aria_invalid := Some (js ''false''),
                                          class_error := False\<rparr>)
                       (element (formFields st f)),
           error = Some (slot\<lparr>err_textContent := [], err_display := js ''none''\<rparr>)\<rparr>)"
proof -
  obtain k where k: "field_of_key k = Some f"
    using field_has_key by blast
  have "formFields (resetForm st) f = formFields (clearError k (form_reset st)) f"
    by (simp add: resetForm_def hideSuccess_rest fold_clearError_field [OF k])
  then show ?thesis
    by (cases "element (formFields st f)")
      (simp_all add: clearError_def k form_reset_def split: option.splits)
qed

lemma listener_rest:
  "submitButton (blur_listener k st) = submitButton st"
  "timeouts (blur_listener k st) = timeouts st"
  "submitButton (set_value k v st) = submitButton st"
  "timeouts (set_value k v st) = timeouts st"
  "submitButton (input_listener k st) = submitButton st"
  "timeouts (input_listener k st) = timeouts st"
  by (simp_all add: blur_listener_def input_listener_def set_value_def validateField_rest
      split: option.splits)

section \<open>The states of an attempt\<close>

lemma phase_running:
  "running sys = Some Validate \<Longrightarrow> phase sys = Validating"
  "running sys = Some (Catch err l) \<Longrightarrow> phase sys = Failed"
  by (simp_all add: phase_def)

lemma phase_waiting:
  "running sys = None \<Longrightarrow> suspended sys \<noteq> [] \<Longrightarrow> phase sys = Sending"
  "running sys = None \<Longrightarrow> suspended sys = [] \<Longrightarrow> timeouts (view sys) \<noteq> [] \<Longrightarrow>
     phase sys = Succeeded"
  "running sys = None \<Longrightarrow> suspended sys = [] \<Longrightarrow> timeouts (view sys) = [] \<Longrightarrow>
     phase sys = Idle"
  by (simp_all add: phase_def)

lemma handleSubmit_rejected_rest:
  "timeouts (handleSubmit_rejected err l st) = timeouts st"
  "submitButton (handleSubmit_rejected err l st) =
     map_option (\<lambda>b. b\<lparr>disabled := False, btn_textContent := l\<rparr>) (submitButton st)"
  by (simp_all add: handleSubmit_rejected_def restore_button_rest showError_rest)

lemma reset_callback_rest:
  "timeouts (reset_callback l st) = remove1 (3000, l) (timeouts st)"
  "submitButton (reset_callback l st) =
     map_option (\<lambda>b. b\<lparr>disabled := False, btn_textContent := l\<rparr>) (submitButton st)"
  "formFields (reset_callback l st) f = formFields (resetForm st) f"
  "successMessage (reset_callback l st) = Some m \<Longrightarrow> suc_display m = js ''none''"
proof -
  let ?s = "st\<lparr>timeouts := remove1 (3000, l) (timeouts st)\<rparr>"
  show "timeouts (reset_callback l st) = remove1 (3000, l) (timeouts st)"
    by (simp add: reset_callback_def restore_button_rest resetForm_rest)
  show "submitButton (reset_callback l st) =
     map_option (\<lambda>b. b\<lparr>disabled := False, btn_textContent := l\<rparr>) (submitButton st)"
    by (simp add: reset_callback_def restore_button_rest resetForm_rest)
  have "formFields (resetForm ?s) f = formFields (resetForm st) f"
    by (simp add: resetForm_field split: option.splits)
  then show "formFields (reset_callback l st) f = formFields (resetForm st) f"
    by (simp add: reset_callback_def restore_button_rest)
  show "suc_display m = js ''none''" if "successMessage (reset_callback l st) = Some m"
    using that resetForm_hidden [of ?s m]
    by (simp add: reset_callback_def restore_button_rest)
qed

lemma resetForm_values:
  "map_option el_value (element (formFields (resetForm st) f)) =
   map_option defaultValue (element (formFields st f))"
  by (cases "element (formFields st f)")
    (simp_all add: resetForm_field split: option.splits)

lemma resetForm_cleared:
  assumes "error (formFields st f) = Some slot"
  shows "error (formFields (resetForm st) f) =
      Some (slot\<lparr>err_textContent := [], err_display := js ''none''\<rparr>)"
    and "element (formFields (resetForm st) f) = Some el \<Longrightarrow>
      aria_invalid el = Some (js ''false'') \<and> \<not> class_error el"
  using assms by (auto simp add: resetForm_field)

lemma nothing_pending:
  assumes "one_in_flight sys" "\<not> (\<exists>b. submitButton (view sys) = Some b \<and> disabled b)"
  shows "suspended sys = []" "timeouts (view sys) = []"
  using assms unfolding one_in_flight_def by blast+

lemma step_submit:
  assumes inv: "one_in_flight sys"
    and gate: "through_control SubmitRequested sys"
    and st: "step SubmitRequested sys = Some sys'"
  shows "phase sys = Idle" and "phase sys' = Validating" and "one_in_flight sys'"
proof -
  from st have r: "running sys = None"
    and s': "sys' = sys\<lparr>view := hideSuccess (view sys), running := Some Validate\<rparr>"
    by (simp_all split: if_splits)
  from gate have "\<not> (\<exists>b. submitButton (view sys) = Some b \<and> disabled b)"
    by (auto simp add: through_control_def submit_control_def)
  from nothing_pending [OF inv this] have p: "suspended sys = []" "timeouts (view sys) = []" .
  from r p show "phase sys = Idle"
    by (rule phase_waiting(3))
  show "phase sys' = Validating"
    by (simp add: s' phase_running)
  show "one_in_flight sys'"
    by (simp add: s' one_in_flight_def p hideSuccess_rest)
qed

lemma step_proceed_validate:
  assumes inv: "one_in_flight sys"
    and r: "running sys = Some Validate"
    and st: "step Proceed sys = Some sys'"
  shows "phase sys = Validating"
    and "(phase sys' = Idle \<and>
          (\<not> snd (validateForm (view sys)) \<or> submitButton (view sys) = None)) \<or>
         (phase sys' = Sending \<and>
          (\<exists>b d. submitButton (view sys) = Some b \<and> suspended sys' = [(d, btn_textContent b)] \<and>
             submitButton (view sys') =
               Some (b\<lparr>disabled := True, btn_textContent := js ''Sending...''\<rparr>)))"
    and "one_in_flight sys'"
proof -
  let ?v = "fst (validateForm (view sys))"
  from inv r have p: "suspended sys = []" "timeouts (view sys) = []"
    by (simp_all add: one_in_flight_def)
  show "phase sys = Validating"
    using r by (rule phase_running)
  have t: "timeouts (fst (handleSubmit_validate (view sys))) = []"
    by (simp add: handleSubmit_validate_timeouts p)
  have "((phase sys' = Idle \<and>
          (\<not> snd (validateForm (view sys)) \<or> submitButton (view sys) = None)) \<or>
         (phase sys' = Sending \<and>
          (\<exists>b d. submitButton (view sys) = Some b \<and> suspended sys' = [(d, btn_textContent b)] \<and>
             submitButton (view sys') =
               Some (b\<lparr>disabled := True, btn_textContent := js ''Sending...''\<rparr>)))) \<and>
      one_in_flight sys'"
  proof (cases "snd (validateForm (view sys))")
    case False
    then have hv: "handleSubmit_validate (view sys) = (focusFirstError ?v, Returned)"
      using handleSubmit_validate_cases [of "view sys"] by simp
    with st r have s': "sys' = sys\<lparr>view := focusFirstError ?v, running := None\<rparr>"
      by simp
    have "timeouts (view sys') = []"
      using t hv by (simp add: s')
    then show ?thesis
      using False p by (simp add: s' phase_def one_in_flight_def)
  next
    case True
    show ?thesis
    proof (cases "submitButton (view sys)")
      case None
      with True have hv: "handleSubmit_validate (view sys) = (?v, Threw)"
        using handleSubmit_validate_cases [of "view sys"] by simp
      with st r have s': "sys' = sys\<lparr>view := ?v, running := None\<rparr>"
        by simp
      have "timeouts (view sys') = []"
        using t hv by (simp add: s')
      then show ?thesis
        using None p by (simp add: s' phase_def one_in_flight_def)
    next
      case (Some b)
      let ?w = "?v\<lparr>submitButton := Some (b\<lparr>disabled := True, btn_textContent := js ''Sending...''\<rparr>),
             submitted := submitted ?v @ [collect_data ?v]\<rparr>"
      from Some True have hv: "handleSubmit_validate (view sys) =
          (?w, Awaiting (collect_data ?v) (btn_textContent b))"
        using handleSubmit_validate_cases [of "view sys"] by simp
      with st r have s': "sys' = sys\<lparr>view := ?w, running := None,
          suspended := suspended sys @ [(collect_data ?v, btn_textContent b)]\<rparr>"
        by simp
      have "timeouts ?w = []"
        using t hv by simp
      then show ?thesis
        using Some p by (simp add: s' phase_def one_in_flight_def)
    qed
  qed
  then show "(phase sys' = Idle \<and>
          (\<not> snd (validateForm (view sys)) \<or> submitButton (view sys) = None)) \<or>
         (phase sys' = Sending \<and>
          (\<exists>b d. submitButton (view sys) = Some b \<and> suspended sys' = [(d, btn_textContent b)] \<and>
             submitButton (view sys') =
               Some (b\<lparr>disabled := True, btn_textContent := js ''Sending...''\<rparr>)))"
    and "one_in_flight sys'"
    by (rule conjunct1, rule conjunct2)
qed

lemma step_proceed_catch:
  assumes inv: "one_in_flight sys"
    and r: "running sys = Some (Catch err l)"
    and st: "step Proceed sys = Some sys'"
  shows "phase sys = Failed" and "phase sys' = Idle"
    and "view sys' = handleSubmit_rejected err l (view sys)"
    and "timeouts (view sys') = []" and "suspended sys' = []"
    and "one_in_flight sys'"
proof -
  from inv r have p: "suspended sys = []" "timeouts (view sys) = []"
    by (simp_all add: one_in_flight_def)
  from st r have s': "sys' = sys\<lparr>view := handleSubmit_rejected err l (view sys), running := None\<rparr>"
    by simp
  show "phase sys = Failed"
    using r by (rule phase_running)
  show "view sys' = handleSubmit_rejected err l (view sys)"
    by (simp add: s')
  show "timeouts (view sys') = []" "suspended sys' = []"
    by (simp_all add: s' p handleSubmit_rejected_rest)
  then show "phase sys' = Idle" "one_in_flight sys'"
    by (simp_all add: s' phase_def one_in_flight_def)
qed

lemma step_settled:
  assumes inv: "one_in_flight sys"
    and st: "step (Settled i result) sys = Some sys'"
  shows "phase sys = Sending"
    and "(phase sys' = Succeeded \<and>
          (\<exists>d l. suspended sys = [(d, l)] \<and> timeouts (view sys') = [(3000, l)]) \<and>
          submitButton (view sys') = submitButton (view sys) \<and>
          (\<exists>b. submitButton (view sys) = Some b \<and> disabled b)) \<or>
         phase sys' = Failed"
    and "one_in_flight sys'"
proof -
  from st have r: "running sys = None" and i: "i < length (suspended sys)"
    by (simp_all split: if_splits)
  then have ne: "suspended sys \<noteq> []"
    by auto
  with inv obtain d l b where s: "suspended sys = [(d, l)]"
    and p: "timeouts (view sys) = []" and b: "submitButton (view sys) = Some b" "disabled b"
    unfolding one_in_flight_def by blast
  from i s have i0: "i = 0"
    by simp
  show "phase sys = Sending"
    using r ne by (rule phase_waiting(1))
  have "((phase sys' = Succeeded \<and>
          (\<exists>d l. suspended sys = [(d, l)] \<and> timeouts (view sys') = [(3000, l)]) \<and>
          submitButton (view sys') = submitButton (view sys) \<and>
          (\<exists>b. submitButton (view sys) = Some b \<and> disabled b)) \<or>
         phase sys' = Failed) \<and> one_in_flight sys'"
  proof (cases result)
    case Fulfilled
    with st r s i0 have s': "sys' = sys\<lparr>view := handleSubmit_fulfilled l (view sys), suspended := []\<rparr>"
      by simp
    show ?thesis
      using r s p b
      by (simp add: s' phase_def one_in_flight_def handleSubmit_fulfilled_rest)
  next
    case (Rejected err)
    with st r s i0 have s': "sys' = sys\<lparr>running := Some (Catch err l), suspended := []\<rparr>"
      by simp
    show ?thesis
      using p by (simp add: s' phase_def one_in_flight_def)
  qed
  then show "(phase sys' = Succeeded \<and>
          (\<exists>d l. suspended sys = [(d, l)] \<and> timeouts (view sys') = [(3000, l)]) \<and>
          submitButton (view sys') = submitButton (view sys) \<and>
          (\<exists>b. submitButton (view sys) = Some b \<and> disabled b)) \<or>
         phase sys' = Failed"
    and "one_in_flight sys'"
    by (rule conjunct1, rule conjunct2)
qed

lemma step_timer:
  assumes inv: "one_in_flight sys"
    and st: "step ResetTimerElapsed sys = Some sys'"
  shows "phase sys = Succeeded" and "phase sys' = Idle"
    and "\<exists>l. timeouts (view sys) = [(3000, l)] \<and> view sys' = reset_callback l (view sys)"
    and "one_in_flight sys'"
proof -
  from st have r: "running sys = None" and ne: "timeouts (view sys) \<noteq> []"
    by (auto split: if_splits list.splits)
  with inv obtain l where t: "timeouts (view sys) = [(3000, l)]" and s: "suspended sys = []"
    unfolding one_in_flight_def by blast
  from st r t have s': "sys' = sys\<lparr>view := reset_callback l (view sys)\<rparr>"
    by simp
  show "phase sys = Succeeded"
    using r s ne by (rule phase_waiting(2))
  show "\<exists>l. timeouts (view sys) = [(3000, l)] \<and> view sys' = reset_callback l (view sys)"
    using t by (simp add: s')
  have "timeouts (view sys') = []"
    by (simp add: s' reset_callback_rest t)
  then show "phase sys' = Idle" "one_in_flight sys'"
    using r s by (simp_all add: s' phase_def one_in_flight_def)
qed

lemma step_field:
  assumes inv: "one_in_flight sys"
    and st: "step ev sys = Some sys'"
    and ev: "ev = FieldBlurred k \<or> ev = FieldChanged k v"
  shows "phase sys' = phase sys" and "one_in_flight sys'"
proof -
  have "\<exists>st'. sys' = sys\<lparr>view := st'\<rparr> \<and> submitButton st' = submitButton (view sys) \<and>
      timeouts st' = timeouts (view sys)"
  proof (cases "ev = FieldBlurred k")
    case True
    with st have "sys' = sys\<lparr>view := blur_listener k (view sys)\<rparr>"
      by (simp split: if_splits)
    then show ?thesis
      by (intro exI [of _ "blur_listener k (view sys)"]) (simp add: listener_rest)
  next
    case False
    with ev st have "sys' = sys\<lparr>view := input_listener k (set_value k v (view sys))\<rparr>"
      by (simp split: if_splits)
    then show ?thesis
      by (intro exI [of _ "input_listener k (set_value k v (view sys))"])
        (simp add: listener_rest)
  qed
  then obtain st' where s': "sys' = sys\<lparr>view := st'\<rparr>"
    and same: "submitButton st' = submitButton (view sys)" "timeouts st' = timeouts (view sys)"
    by blast
  show "phase sys' = phase sys"
    by (simp add: s' same phase_def)
  show "one_in_flight sys'"
    using inv by (simp add: s' same one_in_flight_def)
qed

lemma step_proceed_running:
  assumes "step Proceed sys = Some sys'"
  shows "\<exists>fr. running sys = Some fr"
proof (cases "running sys")
  case None
  with assms show ?thesis
    by simp
next
  case (Some fr)
  then show ?thesis
    by simp
qed

lemma one_in_flight_step:
  assumes inv: "one_in_flight sys" and gate: "through_control ev sys"
    and st: "step ev sys = Some sys'"
  shows "one_in_flight sys'"
proof (cases ev)
  case SubmitRequested
  show ?thesis
    using inv gate [unfolded SubmitRequested] st [unfolded SubmitRequested]
    by (rule step_submit(3))
next
  case Proceed
  note st' = st [unfolded Proceed]
  from step_proceed_running [OF st'] obtain fr where fr: "running sys = Some fr" ..
  show ?thesis
  proof (cases fr)
    case Validate
    show ?thesis
      using inv fr [unfolded Validate] st' by (rule step_proceed_validate(3))
  next
    case (Catch err l)
    show ?thesis
      using inv fr [unfolded Catch] st' by (rule step_proceed_catch(6))
  qed
next
  case (Settled i result)
  show ?thesis
    using inv st [unfolded Settled] by (rule step_settled(3))
next
  case ResetTimerElapsed
  show ?thesis
    using inv st [unfolded ResetTimerElapsed] by (rule step_timer(4))
next
  case (FieldBlurred k)
  then have "ev = FieldBlurred k \<or> ev = FieldChanged k []"
    by simp
  with inv st show ?thesis
    by (rule step_field(2))
next
  case (FieldChanged k v)
  then have "ev = FieldBlurred k \<or> ev = FieldChanged k v"
    by simp
  with inv st show ?thesis
    by (rule step_field(2))
qed

lemma reachable_one_in_flight: "reachable sys \<Longrightarrow> one_in_flight sys"
proof (induction rule: reachable.induct)
  case (at_start sys)
  then show ?case
    by (simp add: initial_def one_in_flight_def)
next
  case (after_step sys ev sys')
  from after_step.IH after_step.hyps(2,3) show ?case
    by (rule one_in_flight_step)
qed

lemma reset_callback_effect:
  "map_option el_value (element (formFields (reset_callback l st) f)) =
     map_option defaultValue (element (formFields st f))"
  "error (formFields st f) = Some slot \<Longrightarrow>
     error (formFields (reset_callback l st) f) =
       Some (slot\<lparr>err_textContent := [], err_display := js ''none''\<rparr>) \<and>
     (\<forall>el. element (formFields (reset_callback l st) f) = Some el \<longrightarrow>
        aria_invalid el = Some (js ''false'') \<and> \<not> class_error el)"
  by (simp_all add: reset_callback_rest(3) resetForm_values resetForm_cleared)

lemma step_field_running:
  assumes "step ev sys = Some sys'" "ev = FieldBlurred k \<or> ev = FieldChanged k v"
  shows "phase sys \<noteq> Failed"
proof -
  have "running sys = None"
  proof (cases "ev = FieldBlurred k")
    case True
    with assms(1) show ?thesis
      by (simp split: if_splits)
  next
    case False
    with assms show ?thesis
      by (simp split: if_splits)
  qed
  then show ?thesis
    by (simp add: phase_def)
qed

text \<open>
  C3, as the script has it. On a page that started with nothing in flight and whose
  submit events come through the submit control, every event either leaves the state of
  the submission as it is (a field losing focus or getting a new value) or moves it along
  one of the transitions the specification allows. Validating goes back to Idle only when
  validateForm returned false, or when the form has no submit button and the handler
  throws. Validating goes on to Sending with the button disabled and its label kept by
  the suspended handler. Sending goes on to Succeeded with the button still disabled and
  one reset timer of 3000 ms set. Succeeded is left only when that timer runs out, for
  Idle: every field has its default value again, the error displays are cleared, the
  success indicator is hidden and the button is enabled with the label kept. Failed goes
  back to Idle as the handler runs on: the button is enabled at once, and no timer is set.
\<close>

theorem step_transitions:
  assumes "reachable sys" and "through_control ev sys" and "step ev sys = Some sys'"
  shows
   "(spec_transition (phase sys) (phase sys') \<or>
       phase sys' = phase sys \<and>
       ((\<exists>k. ev = FieldBlurred k) \<or> (\<exists>k v. ev = FieldChanged k v))) \<and>
    (phase sys = Validating \<and> phase sys' = Idle \<longrightarrow>
       \<not> snd (validateForm (view sys)) \<or> submitButton (view sys) = None) \<and>
    (phase sys = Validating \<and> phase sys' = Sending \<longrightarrow>
       (\<exists>b d. submitButton (view sys) = Some b \<and> suspended sys' = [(d, btn_textContent b)] \<and>
          submitButton (view sys') =
            Some (b\<lparr>disabled := True, btn_textContent := js ''Sending...''\<rparr>))) \<and>
    (phase sys = Sending \<and> phase sys' = Succeeded \<longrightarrow>
       (\<exists>d l. suspended sys = [(d, l)] \<and> timeouts (view sys') = [(3000, l)]) \<and>
       submitButton (view sys') = submitButton (view sys) \<and>
       (\<exists>b. submitButton (view sys) = Some b \<and> disabled b)) \<and>
    (phase sys = Succeeded \<and> phase sys' \<noteq> Succeeded \<longrightarrow>
       ev = ResetTimerElapsed \<and> phase sys' = Idle \<and>
       (\<exists>l. timeouts (view sys) = [(3000, l)] \<and>
          submitButton (view sys') =
            map_option (\<lambda>b. b\<lparr>disabled := False, btn_textContent := l\<rparr>)
              (submitButton (view sys))) \<and>
       (\<forall>f. map_option el_value (element (formFields (view sys') f)) =
            map_option defaultValue (element (formFields (view sys) f))) \<and>
       (\<forall>f slot. error (formFields (view sys) f) = Some slot \<longrightarrow>
          error (formFields (view sys') f) =
            Some (slot\<lparr>err_textContent := [], err_display := js ''none''\<rparr>) \<and>
          (\<forall>el. element (formFields (view sys') f) = Some el \<longrightarrow>
             aria_invalid el = Some (js ''false'') \<and> \<not> class_error el)) \<and>
       (\<forall>m. successMessage (view sys') = Some m \<longrightarrow> suc_display m = js ''none'')) \<and>
    (phase sys = Failed \<longrightarrow>
       ev = Proceed \<and> phase sys' = Idle \<and> timeouts (view sys') = [] \<and> suspended sys' = [] \<and>
       (\<exists>err l. running sys = Some (Catch err l) \<and>
          view sys' = handleSubmit_rejected err l (view sys) \<and>
          submitButton (view sys') =
            map_option (\<lambda>b. b\<lparr>disabled := False, btn_textContent := l\<rparr>)
              (submitButton (view sys))))"
proof -
  note inv = reachable_one_in_flight [OF assms(1)]
  note gate = assms(2) and st = assms(3)
  show ?thesis
  proof (cases ev)
    case SubmitRequested
    note p = step_submit(1,2) [OF inv gate [unfolded SubmitRequested] st [unfolded SubmitRequested]]
    show ?thesis
      by (simp add: p)
  next
    case Proceed
    note st' = st [unfolded Proceed]
    from step_proceed_running [OF st'] obtain fr where fr: "running sys = Some fr" ..
    show ?thesis
    proof (cases fr)
      case Validate
      note r = fr [unfolded Validate]
      note p = step_proceed_validate(1,2) [OF inv r st']
      from p(2) show ?thesis
      proof
        assume "phase sys' = Idle \<and>
          (\<not> snd (validateForm (view sys)) \<or> submitButton (view sys) = None)"
        then show ?thesis
          by (simp add: p(1))
      next
        assume a: "phase sys' = Sending \<and>
          (\<exists>b d. submitButton (view sys) = Some b \<and> suspended sys' = [(d, btn_textContent b)] \<and>
             submitButton (view sys') =
               Some (b\<lparr>disabled := True, btn_textContent := js ''Sending...''\<rparr>))"
        then have "phase sys' = Sending"
          by simp
        with a show ?thesis
          by (simp add: p(1))
      qed
    next
      case (Catch err l)
      note r = fr [unfolded Catch]
      note p = step_proceed_catch(1-5) [OF inv r st']
      have "submitButton (view sys') =
          map_option (\<lambda>b. b\<lparr>disabled := False, btn_textContent := l\<rparr>) (submitButton (view sys))"
        by (simp add: p(3) handleSubmit_rejected_rest)
      with p r show ?thesis
        by (simp add: Proceed)
    qed
  next
    case (Settled i result)
    note p = step_settled(1,2) [OF inv st [unfolded Settled]]
    from p(2) show ?thesis
    proof
      assume a: "phase sys' = Succeeded \<and>
          (\<exists>d l. suspended sys = [(d, l)] \<and> timeouts (view sys') = [(3000, l)]) \<and>
          submitButton (view sys') = submitButton (view sys) \<and>
          (\<exists>b. submitButton (view sys) = Some b \<and> disabled b)"
      then have "phase sys' = Succeeded"
        by simp
      with a show ?thesis
        by (simp add: p(1))
    next
      assume "phase sys' = Failed"
      then show ?thesis
        by (simp add: p(1))
    qed
  next
    case ResetTimerElapsed
    note p = step_timer(1-3) [OF inv st [unfolded ResetTimerElapsed]]
    from p(3) obtain l where t: "timeouts (view sys) = [(3000, l)]"
      and v: "view sys' = reset_callback l (view sys)"
      by blast
    have b: "submitButton (view sys') =
        map_option (\<lambda>b. b\<lparr>disabled := False, btn_textContent := l\<rparr>) (submitButton (view sys))"
      by (simp add: v reset_callback_rest)
    have hidden: "suc_display m = js ''none''" if "successMessage (view sys') = Some m" for m
      using that unfolding v by (rule reset_callback_rest(4))
    show ?thesis
      using t b hidden reset_callback_effect [where l = l and st = "view sys"]
      by (simp add: p(1,2) ResetTimerElapsed v)
  next
    case (FieldBlurred k)
    then have e: "ev = FieldBlurred k \<or> ev = FieldChanged k []"
      by simp
    from step_field(1) [OF inv st e] step_field_running [OF st e] FieldBlurred show ?thesis
      by (cases "phase sys") simp_all
  next
    case (FieldChanged k v)
    then have e: "ev = FieldBlurred k \<or> ev = FieldChanged k v"
      by simp
    from step_field(1) [OF inv st e] step_field_running [OF st e] FieldChanged show ?thesis
      by (cases "phase sys") simp_all
  qed
qed

lemma sample_steps:
  "step SubmitRequested idle_system = Some validating_system"
  "step Proceed validating_system = Some sending_system"
  "step (Settled 0 Fulfilled) sending_system = Some succeeded_system"
  "step (Settled 0 (Rejected ())) sending_system = Some failed_system"
proof -
  show "step SubmitRequested idle_system = Some validating_system"
    by (simp add: idle_system_def validating_system_def)
  have "handleSubmit_validate (hideSuccess (rendered_form valid_entries)) =
      (sending_page,
       Awaiting (collect_data (fst (validateForm (hideSuccess (rendered_form valid_entries)))))
         (js ''Send Message''))"
    using sending_page_Awaiting by (simp only: handleSubmit_def)
  then show "step Proceed validating_system = Some sending_system"
    by (simp add: validating_system_def sending_system_def)
  show "step (Settled 0 Fulfilled) sending_system = Some succeeded_system"
    by (simp add: sending_system_def succeeded_system_def)
  show "step (Settled 0 (Rejected ())) sending_system = Some failed_system"
    by (simp add: sending_system_def failed_system_def)
qed

lemma sample_reachable:
  "reachable idle_system" "reachable validating_system" "reachable sending_system"
  "reachable succeeded_system" "reachable failed_system"
proof -
  show 0: "reachable idle_system"
    by (rule reachable.at_start) (simp add: initial_def idle_system_def rendered_form_def)
  have "through_control SubmitRequested idle_system"
    by (simp add: through_control_def submit_control_def idle_system_def rendered_form_def)
  with 0 show 1: "reachable validating_system"
    using sample_steps(1) by (rule reachable.after_step)
  have "through_control Proceed validating_system"
    by (simp add: through_control_def)
  with 1 show 2: "reachable sending_system"
    using sample_steps(2) by (rule reachable.after_step)
  have "through_control (Settled 0 Fulfilled) sending_system"
    by (simp add: through_control_def)
  with 2 show "reachable succeeded_system"
    using sample_steps(3) by (rule reachable.after_step)
  have "through_control (Settled 0 (Rejected ())) sending_system"
    by (simp add: through_control_def)
  with 2 show "reachable failed_system"
    using sample_steps(4) by (rule reachable.after_step)
qed

lemma sample_phases:
  "phase idle_system = Idle" "phase validating_system = Validating"
  "phase sending_system = Sending" "phase succeeded_system = Succeeded"
  "phase failed_system = Failed"
  by (simp_all add: phase_def idle_system_def validating_system_def sending_system_def
      succeeded_system_def failed_system_def rendered_form_def handleSubmit_fulfilled_rest)

lemma succeeded_system_timer:
  "timeouts (view succeeded_system) = [(3000, js ''Send Message'')]"
  "submitButton (view succeeded_system) =
     Some \<lparr>disabled = True, btn_textContent = js ''Sending...''\<rparr>"
  by (simp_all add: succeeded_system_def handleSubmit_fulfilled_rest sending_page_facts)

theorem step_transitions_witness:
  "reachable sending_system \<and>
   through_control (Settled 0 Fulfilled) sending_system \<and>
   step (Settled 0 Fulfilled) sending_system = Some succeeded_system \<and>
   phase sending_system = Sending \<and> phase succeeded_system = Succeeded \<and>
   spec_transition (phase sending_system) (phase succeeded_system) \<and>
   timeouts (view succeeded_system) = [(3000, js ''Send Message'')] \<and>
   submitButton (view succeeded_system) =
     Some \<lparr>disabled = True, btn_textContent = js ''Sending...''\<rparr> \<and>
   reachable succeeded_system \<and>
   through_control ResetTimerElapsed succeeded_system \<and>
   step ResetTimerElapsed succeeded_system =
     Some (succeeded_system\<lparr>view := reset_callback (js ''Send Message'') (view succeeded_system)\<rparr>) \<and>
   phase (succeeded_system\<lparr>view := reset_callback (js ''Send Message'') (view succeeded_system)\<rparr>) =
     Idle \<and>
   submitButton (reset_callback (js ''Send Message'') (view succeeded_system)) =
     Some \<lparr>disabled = False, btn_textContent = js ''Send Message''\<rparr> \<and>
   map_option el_value
     (element (formFields (reset_callback (js ''Send Message'') (view succeeded_system)) Name)) =
     Some []"
proof -
  let ?r = "succeeded_system\<lparr>view := reset_callback (js ''Send Message'') (view succeeded_system)\<rparr>"
  have g1: "through_control (Settled 0 Fulfilled) sending_system"
    and g2: "through_control ResetTimerElapsed succeeded_system"
    by (simp_all add: through_control_def)
  have s2: "step ResetTimerElapsed succeeded_system = Some ?r"
    by (simp add: succeeded_system_timer) (simp add: succeeded_system_def)
  note T1 = step_transitions [OF sample_reachable(3) g1 sample_steps(3)]
  note T2 = step_transitions [OF sample_reachable(4) g2 s2]
  from T1 have a: "spec_transition (phase sending_system) (phase succeeded_system)"
    by (simp add: sample_phases)
  from T2 have idle: "phase ?r = Idle"
    by (cases "phase ?r") (simp_all add: sample_phases)
  from T2 have "\<exists>l. timeouts (view succeeded_system) = [(3000, l)] \<and>
      submitButton (view ?r) =
        map_option (\<lambda>b. b\<lparr>disabled := False, btn_textContent := l\<rparr>)
          (submitButton (view succeeded_system))"
    by (simp add: sample_phases idle)
  then have button: "submitButton (reset_callback (js ''Send Message'') (view succeeded_system)) =
      Some \<lparr>disabled = False, btn_textContent = js ''Send Message''\<rparr>"
    by (simp add: succeeded_system_timer)
  from T2 have "\<forall>f. map_option el_value (element (formFields (view ?r) f)) =
      map_option defaultValue (element (formFields (view succeeded_system) f))"
    by (simp add: sample_phases idle)
  then have name: "map_option el_value
     (element (formFields (reset_callback (js ''Send Message'') (view succeeded_system)) Name)) =
     Some []"
    by (simp add: succeeded_system_def handleSubmit_fulfilled_rest
        sending_page_field [OF field_of_key_simps(1)])
  from sample_reachable(3,4) g1 g2 sample_steps(3) s2 a idle button name show ?thesis
    by (simp add: sample_phases succeeded_system_timer)
qed

lemma no_button_valid:
  "snd (validateForm (view no_button_system))"
proof -
  let ?P = "rendered_form valid_entries"
  have "snd (validateField k (view no_button_system)) = snd (validateField k ?P)"
    if "k \<in> set Object_keys" for k
  proof -
    from that obtain f where "field_of_key k = Some f"
      using Object_keys_fields by blast
    then show ?thesis
      by (rule validateField_local(1)) (simp add: no_button_system_def hideSuccess_rest)
  qed
  then have "snd (validateForm (view no_button_system)) = snd (validateForm ?P)"
    by (simp add: validateForm_result)
  then show ?thesis
    by (simp add: valid_sample)
qed

lemma no_button_step:
  "step Proceed no_button_system =
     Some (no_button_system\<lparr>view := fst (validateForm (view no_button_system)),
                             running := None\<rparr>)"
proof -
  have "submitButton (view no_button_system) = None"
    by (simp add: no_button_system_def hideSuccess_rest)
  with no_button_valid
  have "handleSubmit_validate (view no_button_system) =
      (fst (validateForm (view no_button_system)), Threw)"
    using handleSubmit_validate_cases [of "view no_button_system"] by simp
  moreover have "running no_button_system = Some Validate"
    by (simp add: no_button_system_def)
  ultimately show ?thesis
    by simp
qed

lemma no_button_reachable: "reachable no_button_system"
proof -
  let ?i = "\<lparr>view = (rendered_form valid_entries)\<lparr>submitButton := None\<rparr>,
            running = None :: unit frame option, suspended = []\<rparr>"
  have "reachable ?i"
    by (rule reachable.at_start) (simp add: initial_def rendered_form_def)
  moreover have "through_control SubmitRequested ?i"
    by (simp add: through_control_def submit_control_def)
  moreover have "step SubmitRequested ?i = Some no_button_system"
    by (simp add: no_button_system_def)
  ultimately show ?thesis
    by (rule reachable.after_step)
qed

text \<open>
  Three runs the claim as stated excludes. After a rejection the submission is back at
  Idle by the handler running on, not by a timer: the button is enabled, and no timer is
  pending before or after. On a valid form without a submit button, Validating goes back
  to Idle although the validation succeeded. A submit event that reaches the handler
  past the disabled button takes Sending to Validating.
\<close>

theorem submission_state_counterexample:
  "reachable failed_system \<and> phase failed_system = Failed \<and>
   through_control Proceed failed_system \<and>
   step Proceed failed_system =
     Some \<lparr>view = handleSubmit_rejected () (js ''Send Message'') sending_page,
           running = None, suspended = []\<rparr> \<and>
   phase \<lparr>view = handleSubmit_rejected () (js ''Send Message'') sending_page,
          running = None :: unit frame option, suspended = []\<rparr> = Idle \<and>
   (Proceed :: unit event) \<noteq> ResetTimerElapsed \<and>
   timeouts (view failed_system) = [] \<and>
   timeouts (handleSubmit_rejected () (js ''Send Message'') sending_page) = [] \<and>
   submitButton (handleSubmit_rejected () (js ''Send Message'') sending_page) =
     Some \<lparr>disabled = False, btn_textContent = js ''Send Message''\<rparr> \<and>
   reachable no_button_system \<and> phase no_button_system = Validating \<and>
   snd (validateForm (view no_button_system)) \<and>
   step Proceed no_button_system =
     Some (no_button_system\<lparr>view := fst (validateForm (view no_button_system)),
                             running := None\<rparr>) \<and>
   phase (no_button_system\<lparr>view := fst (validateForm (view no_button_system)),
                            running := None\<rparr>) = Idle \<and>
   reachable sending_system \<and> phase sending_system = Sending \<and>
   submit_control (view sending_system) = None \<and>
   step SubmitRequested sending_system =
     Some (sending_system\<lparr>view := hideSuccess (view sending_system),
                           running := Some Validate\<rparr>) \<and>
   phase (sending_system\<lparr>view := hideSuccess (view sending_system),
                          running := Some Validate\<rparr>) = Validating \<and>
   \<not> spec_transition Sending Validating"
proof -
  have failed: "reachable failed_system \<and> phase failed_system = Failed \<and>
   through_control Proceed failed_system \<and>
   step Proceed failed_system =
     Some \<lparr>view = handleSubmit_rejected () (js ''Send Message'') sending_page,
           running = None, suspended = []\<rparr> \<and>
   phase \<lparr>view = handleSubmit_rejected () (js ''Send Message'') sending_page,
          running = None :: unit frame option, suspended = []\<rparr> = Idle \<and>
   (Proceed :: unit event) \<noteq> ResetTimerElapsed \<and>
   timeouts (view failed_system) = [] \<and>
   timeouts (handleSubmit_rejected () (js ''Send Message'') sending_page) = [] \<and>
   submitButton (handleSubmit_rejected () (js ''Send Message'') sending_page) =
     Some \<lparr>disabled = False, btn_textContent = js ''Send Message''\<rparr>"
    using sample_reachable(5)
    by (simp add: sample_phases through_control_def failed_system_def phase_def
        handleSubmit_rejected_rest sending_page_facts)
  have nb: "phase no_button_system = Validating"
    "phase (no_button_system\<lparr>view := fst (validateForm (view no_button_system)),
                            running := None\<rparr>) = Idle"
    by (simp_all add: phase_def no_button_system_def validateForm_rest hideSuccess_rest
        rendered_form_def)
  have again: "submit_control (view sending_system) = None"
    "step SubmitRequested sending_system =
     Some (sending_system\<lparr>view := hideSuccess (view sending_system),
                           running := Some Validate\<rparr>)"
    "phase (sending_system\<lparr>view := hideSuccess (view sending_system),
                          running := Some Validate\<rparr>) = Validating"
    by (simp_all add: sending_system_def submit_control_def sending_page_facts phase_def)
  from failed nb no_button_reachable no_button_valid no_button_step again
    sample_reachable(3) sample_phases(3)
  show ?thesis
    by simp
qed

end
